theory Spec2Isabelle
  imports Main "HOL-Library.Sublist" "HOL-Library.AList"
begin

section \<open>Go strings\<close>

text \<open>
  A Go string is a sequence of bytes; \<open>len\<close> counts bytes. It is modelled as a
  \<open>string\<close> (a list of 8-bit characters), one \<open>char\<close> per byte.
\<close>

text \<open>\<open>strings.Contains(s, substr)\<close>: \<open>substr\<close> occurs in \<open>s\<close> as a contiguous run of bytes.\<close>

fun Contains :: "string \<Rightarrow> string \<Rightarrow> bool" where
  "Contains [] substr = (substr = [])"
| "Contains (c # cs) substr = (prefix substr (c # cs) \<or> Contains cs substr)"

text \<open>
  \<open>strings.ContainsAny(s, chars)\<close> for a set \<open>chars\<close> of ASCII characters: some byte
  of \<open>s\<close> is one of them (a byte of a multi-byte UTF-8 sequence is never ASCII).
\<close>

definition ContainsAny :: "string \<Rightarrow> string \<Rightarrow> bool" where
  "ContainsAny s chars = list_ex (\<lambda>c. c \<in> set chars) s"

text \<open>\<open>strings.HasPrefix\<close> and \<open>strings.TrimPrefix\<close>.\<close>

definition HasPrefix :: "string \<Rightarrow> string \<Rightarrow> bool" where
  "HasPrefix s p = prefix p s"

definition TrimPrefix :: "string \<Rightarrow> string \<Rightarrow> string" where
  "TrimPrefix s p = (if HasPrefix s p then drop (length p) s else s)"

text \<open>
  The UTF-8 encodings of the code points for which \<open>unicode.IsSpace\<close> holds:
  tab, line feed, vertical tab, form feed, carriage return, space, U+0085, U+00A0,
  U+1680, U+2000 to U+200A, U+2028, U+2029, U+202F, U+205F and U+3000.
\<close>

definition spaceRunes :: "string list" where
  "spaceRunes =
    [[CHR 0x09], [CHR 0x0A], [CHR 0x0B], [CHR 0x0C], [CHR 0x0D], [CHR 0x20],
     [CHR 0xC2, CHR 0x85], [CHR 0xC2, CHR 0xA0],
     [CHR 0xE1, CHR 0x9A, CHR 0x80],
     [CHR 0xE2, CHR 0x80, CHR 0x80], [CHR 0xE2, CHR 0x80, CHR 0x81],
     [CHR 0xE2, CHR 0x80, CHR 0x82], [CHR 0xE2, CHR 0x80, CHR 0x83],
     [CHR 0xE2, CHR 0x80, CHR 0x84], [CHR 0xE2, CHR 0x80, CHR 0x85],
     [CHR 0xE2, CHR 0x80, CHR 0x86], [CHR 0xE2, CHR 0x80, CHR 0x87],
     [CHR 0xE2, CHR 0x80, CHR 0x88], [CHR 0xE2, CHR 0x80, CHR 0x89],
     [CHR 0xE2, CHR 0x80, CHR 0x8A],
     [CHR 0xE2, CHR 0x80, CHR 0xA8], [CHR 0xE2, CHR 0x80, CHR 0xA9],
     [CHR 0xE2, CHR 0x80, CHR 0xAF],
     [CHR 0xE2, CHR 0x81, CHR 0x9F],
     [CHR 0xE3, CHR 0x80, CHR 0x80]]"

text \<open>
  The byte length of the white-space code point a string starts with (ends with),
  0 when it starts (ends) with none. A byte sequence that is not valid UTF-8 decodes
  to U+FFFD, which is not white space.
\<close>

definition leadingSpace :: "string \<Rightarrow> nat" where
  "leadingSpace s = (case find (\<lambda>p. prefix p s) spaceRunes of None \<Rightarrow> 0 | Some p \<Rightarrow> length p)"

definition trailingSpace :: "string \<Rightarrow> nat" where
  "trailingSpace s = (case find (\<lambda>p. suffix p s) spaceRunes of None \<Rightarrow> 0 | Some p \<Rightarrow> length p)"

lemma leadingSpace_le: "leadingSpace s \<le> length s"
  by (auto simp: leadingSpace_def find_Some_iff prefix_length_le split: option.splits)

lemma trailingSpace_le: "trailingSpace s \<le> length s"
  by (auto simp: trailingSpace_def find_Some_iff suffix_length_le split: option.splits)

text \<open>\<open>strings.TrimSpace\<close>: all leading and trailing white space removed.\<close>

function TrimLeftSpace :: "string \<Rightarrow> string" where
  "TrimLeftSpace s =
     (if leadingSpace s = 0 then s else TrimLeftSpace (drop (leadingSpace s) s))"
  by pat_completeness auto
termination
proof (relation "measure length")
  fix s :: string
  assume "leadingSpace s \<noteq> 0"
  moreover have "leadingSpace s \<le> length s" by (rule leadingSpace_le)
  ultimately show "(drop (leadingSpace s) s, s) \<in> measure length" by simp
qed simp

function TrimRightSpace :: "string \<Rightarrow> string" where
  "TrimRightSpace s =
     (if trailingSpace s = 0 then s
      else TrimRightSpace (take (length s - trailingSpace s) s))"
  by pat_completeness auto
termination
proof (relation "measure length")
  fix s :: string
  assume "trailingSpace s \<noteq> 0"
  moreover have "trailingSpace s \<le> length s" by (rule trailingSpace_le)
  ultimately show "(take (length s - trailingSpace s) s, s) \<in> measure length" by simp
qed simp

declare TrimLeftSpace.simps [simp del] TrimRightSpace.simps [simp del]

definition TrimSpace :: "string \<Rightarrow> string" where
  "TrimSpace s = TrimRightSpace (TrimLeftSpace s)"

section \<open>Errors\<close>

datatype error =
    MessageTooLong
  | MessageEmpty
  | MessageInvalidCharacters string
  | NameInvalidCharacters
  | NameTooLong
  | NameEmpty
  | PathContainsDotDot
  | InvalidPath
  | InvalidBasePath
  | PathOutsideBase
  | FileNotFound
  | PathIsDirectory
  | InvalidExtension
  | FileTooLarge
  | NotExist
  | Exists
  | IsADirectory
  | NotADirectory
  | DirectoryNotEmpty

section \<open>Common validators\<close>

text \<open>The list \<open>dangerous\<close> of \<open>sanitizeMessage\<close>, in the source's order.\<close>

definition dangerous :: "string list" where
  "dangerous =
     ['';'', ''&'', ''|'', [CHR 0x60], ''$'', ''('', '')'', ''<'', ''>'',
      [CHR 0x0A, CHR 0x0A, CHR 0x0A], [CHR 0x0D]]"

definition sanitizeMessage :: "string \<Rightarrow> error + string" where
  "sanitizeMessage msg =
     (if length msg > 10000 then Inl MessageTooLong
      else if TrimSpace msg = [] then Inl MessageEmpty
      else (case find (\<lambda>char. Contains msg char) dangerous of
              Some char \<Rightarrow> Inl (MessageInvalidCharacters char)
            | None \<Rightarrow> Inr msg))"

text \<open>The character set of \<open>sanitizeProjectName\<close>: the Go literal \<open>"/../\\:*?\"<>|"\<close>.\<close>

definition projectNameChars :: string where
  "projectNameChars =
     [CHR ''/'', CHR ''.'', CHR ''.'', CHR ''/'', CHR 0x5C, CHR '':'', CHR ''*'', CHR ''?'',
      CHR 0x22, CHR ''<'', CHR ''>'', CHR ''|'']"

definition sanitizeProjectName :: "string \<Rightarrow> error + string" where
  "sanitizeProjectName name =
     (if ContainsAny name projectNameChars then Inl NameInvalidCharacters
      else if length name > 255 then Inl NameTooLong
      else if TrimSpace name = [] then Inl NameEmpty
      else Inr name)"

section \<open>Paths\<close>

text \<open>
  The functions of Go's \<open>path/filepath\<close> that the program calls, for a Unix system
  (separator \<open>/\<close>, no volume names). They are purely lexical.
\<close>

text \<open>The elements of a path: the runs of bytes between separators.\<close>

fun splitSlash :: "string \<Rightarrow> string list" where
  "splitSlash [] = [[]]"
| "splitSlash (c # cs) =
     (if c = CHR ''/'' then [] # splitSlash cs
      else (case splitSlash cs of [] \<Rightarrow> [[c]] | e # es \<Rightarrow> (c # e) # es))"

fun joinSlash :: "string list \<Rightarrow> string" where
  "joinSlash [] = []"
| "joinSlash [e] = e"
| "joinSlash (e # es) = e @ ''/'' @ joinSlash es"

text \<open>
  \<open>filepath.Clean\<close> reads the path element by element and writes the cleaned elements:
  an empty element and \<open>.\<close> are dropped; \<open>..\<close> removes the last written element when
  there is one that is not itself \<open>..\<close>, is dropped at the root of a rooted path, and is
  written otherwise; any other element is written. The empty result is \<open>.\<close>.
\<close>

definition cleanElem :: "bool \<Rightarrow> string list \<Rightarrow> string \<Rightarrow> string list" where
  "cleanElem rooted out e =
     (if e = [] \<or> e = ''.'' then out
      else if e = ''..'' then
        (if out \<noteq> [] \<and> last out \<noteq> ''..'' then butlast out
         else if \<not> rooted then out @ [''..'']
         else out)
      else out @ [e])"

definition Clean :: "string \<Rightarrow> string" where
  "Clean path =
     (if path = [] then ''.''
      else
        let rooted = (hd path = CHR ''/'');
            out = foldl (cleanElem rooted) [] (splitSlash path)
        in if rooted then CHR ''/'' # joinSlash out
           else if out = [] then ''.''
           else joinSlash out)"

text \<open>\<open>filepath.Join\<close>: leading empty elements are ignored, the rest joined and cleaned.\<close>

definition Join :: "string list \<Rightarrow> string" where
  "Join elem =
     (case dropWhile (\<lambda>e. e = []) elem of [] \<Rightarrow> [] | es \<Rightarrow> Clean (joinSlash es))"

definition IsAbs :: "string \<Rightarrow> bool" where
  "IsAbs path = HasPrefix path ''/''"

text \<open>
  \<open>filepath.Ext\<close>: the suffix of the last element that starts at its last full stop,
  empty when the last element has none.
\<close>

definition Ext :: "string \<Rightarrow> string" where
  "Ext path =
     (let r = takeWhile (\<lambda>c. c \<noteq> CHR ''/'') (rev path)
      in if CHR ''.'' \<in> set r then CHR ''.'' # rev (takeWhile (\<lambda>c. c \<noteq> CHR ''.'') r)
         else [])"

section \<open>The process environment\<close>

text \<open>
  What the program reads from its environment: the environment variables
  (\<open>os.Getenv\<close> gives the empty string for an unset variable), the user's home directory
  and the working directory (\<open>os.UserHomeDir\<close> and \<open>os.Getwd\<close> can fail: \<open>None\<close>).
\<close>

record environ =
  Getenv :: "string \<Rightarrow> string"
  UserHomeDir :: "string option"
  Getwd :: "string option"

text \<open>\<open>filepath.Abs\<close>: an absolute path is cleaned, a relative one joined to the working directory.\<close>

definition Abs :: "environ \<Rightarrow> string \<Rightarrow> string option" where
  "Abs env path =
     (if IsAbs path then Some (Clean path)
      else (case Getwd env of None \<Rightarrow> None | Some wd \<Rightarrow> Some (Join [wd, path])))"

definition getClaudeBaseDir :: "environ \<Rightarrow> string" where
  "getClaudeBaseDir env =
     (if Getenv env ''CLAUDE_BASE_DIR'' \<noteq> [] then Getenv env ''CLAUDE_BASE_DIR''
      else (case UserHomeDir env of
              None \<Rightarrow> ''/Users/2a/.claude''
            | Some home \<Rightarrow> Join [home, ''.claude'']))"

definition getClaudeProjectsDir :: "environ \<Rightarrow> string" where
  "getClaudeProjectsDir env = Join [getClaudeBaseDir env, ''projects'']"

definition getClaudeProjetosDir :: "environ \<Rightarrow> string" where
  "getClaudeProjetosDir env = Join [getClaudeBaseDir env, ''projetos'']"

section \<open>Path validation\<close>

definition validatePath :: "environ \<Rightarrow> string \<Rightarrow> string \<Rightarrow> error + unit" where
  "validatePath env path basePath =
     (let cleanPath = Clean path in
      if Contains cleanPath ''..'' then Inl PathContainsDotDot
      else (case Abs env cleanPath of
              None \<Rightarrow> Inl InvalidPath
            | Some absPath \<Rightarrow>
                (case Abs env basePath of
                   None \<Rightarrow> Inl InvalidBasePath
                 | Some absBase \<Rightarrow>
                     if \<not> HasPrefix absPath absBase then Inl PathOutsideBase
                     else Inr ())))"

section \<open>The file system\<close>

text \<open>
  The file system as the program sees it through package \<open>os\<close>: a finite table from
  (cleaned) paths to nodes, a regular file with its bytes or a directory. The only
  failures modelled are those the table determines (a missing entry, a directory where
  a file is needed and the reverse); \<open>os.Stat\<close> fails exactly on a missing entry.
\<close>

datatype node = File string | Directory

type_synonym filesystem = "(string \<times> node) list"

definition Stat :: "filesystem \<Rightarrow> string \<Rightarrow> node option" where
  "Stat fs path = map_of fs path"

fun IsDir :: "node \<Rightarrow> bool" where
  "IsDir Directory = True"
| "IsDir (File content) = False"

text \<open>\<open>FileInfo.Size\<close>; the size of a directory is never consulted by the program.\<close>

fun Size :: "node \<Rightarrow> nat" where
  "Size (File content) = length content"
| "Size Directory = 0"

text \<open>The directory an entry is created in: the path up to its last separator, if any.\<close>

definition parentDir :: "string \<Rightarrow> string option" where
  "parentDir path =
     (let r = dropWhile (\<lambda>c. c \<noteq> CHR ''/'') (dropWhile (\<lambda>c. c = CHR ''/'') (rev path))
      in if length r > 1 then Some (rev (tl r)) else None)"

lemma parentDir_shorter: "parentDir path = Some parent \<Longrightarrow> length parent < length path"
proof -
  assume a: "parentDir path = Some parent"
  let ?r = "dropWhile (\<lambda>c. c \<noteq> CHR ''/'') (dropWhile (\<lambda>c. c = CHR ''/'') (rev path))"
  have "length ?r \<le> length (dropWhile (\<lambda>c. c = CHR ''/'') (rev path))"
    by (rule length_dropWhile_le)
  also have "\<dots> \<le> length (rev path)" by (rule length_dropWhile_le)
  finally have le: "length ?r \<le> length path" by simp
  from a have "length ?r > 1" and "parent = rev (tl ?r)"
    by (auto simp: parentDir_def Let_def split: if_splits)
  with le show ?thesis by simp
qed

definition parentExists :: "filesystem \<Rightarrow> string \<Rightarrow> bool" where
  "parentExists fs path =
     (case parentDir path of None \<Rightarrow> True | Some parent \<Rightarrow> Stat fs parent = Some Directory)"

text \<open>\<open>os.Remove\<close>: removes a file or an empty directory.\<close>

definition Remove :: "filesystem \<Rightarrow> string \<Rightarrow> error + filesystem" where
  "Remove fs path =
     (case Stat fs path of
        None \<Rightarrow> Inl NotExist
      | Some (File content) \<Rightarrow> Inr (AList.delete path fs)
      | Some Directory \<Rightarrow>
          if list_ex (\<lambda>(q, n). prefix (path @ ''/'') q) fs then Inl DirectoryNotEmpty
          else Inr (AList.delete path fs))"

text \<open>\<open>os.ReadFile\<close> and \<open>os.WriteFile\<close> (which creates or truncates the file).\<close>

definition ReadFile :: "filesystem \<Rightarrow> string \<Rightarrow> error + string" where
  "ReadFile fs path =
     (case Stat fs path of
        None \<Rightarrow> Inl NotExist
      | Some Directory \<Rightarrow> Inl IsADirectory
      | Some (File content) \<Rightarrow> Inr content)"

definition WriteFile :: "filesystem \<Rightarrow> string \<Rightarrow> string \<Rightarrow> error + filesystem" where
  "WriteFile fs path content =
     (if Stat fs path = Some Directory then Inl IsADirectory
      else if \<not> parentExists fs path then Inl NotExist
      else Inr (AList.update path (File content) fs))"

text \<open>\<open>os.Mkdir\<close> and \<open>os.MkdirAll\<close> (which creates the missing parents first).\<close>

definition Mkdir :: "filesystem \<Rightarrow> string \<Rightarrow> error + filesystem" where
  "Mkdir fs path =
     (if Stat fs path \<noteq> None then Inl Exists
      else if \<not> parentExists fs path then Inl NotExist
      else Inr (AList.update path Directory fs))"

function MkdirAll :: "filesystem \<Rightarrow> string \<Rightarrow> error + filesystem" where
  "MkdirAll fs path =
     (case Stat fs path of
        Some Directory \<Rightarrow> Inr fs
      | Some (File content) \<Rightarrow> Inl NotADirectory
      | None \<Rightarrow>
          (case parentDir path of
             None \<Rightarrow> Mkdir fs path
           | Some parent \<Rightarrow>
               (case MkdirAll fs parent of
                  Inl e \<Rightarrow> Inl e
                | Inr fs' \<Rightarrow> Mkdir fs' path)))"
  by pat_completeness auto
termination
  by (relation "measure (\<lambda>(fs, path). length path)") (auto dest: parentDir_shorter)

declare MkdirAll.simps [simp del]

section \<open>The session cache\<close>

record SessionInfo =
  ID :: string
  Path :: string

record cacheEntry =
  sessions :: "SessionInfo list"
  timestamp :: nat

type_synonym sessionCache = "string \<rightharpoonup> cacheEntry"

definition invalidateSessionCache :: "sessionCache \<Rightarrow> string \<Rightarrow> sessionCache" where
  "invalidateSessionCache data projectName = data(projectName := None)"

section \<open>File operations\<close>

definition validateFileOperation :: "filesystem \<Rightarrow> string \<Rightarrow> string \<Rightarrow> error + unit" where
  "validateFileOperation fs filePath operation =
     (let info = Stat fs filePath in
      if info = None \<and> operation \<noteq> ''create'' then Inl FileNotFound
      else if (case info of None \<Rightarrow> False | Some i \<Rightarrow> IsDir i) then Inl PathIsDirectory
      else if Ext filePath \<noteq> ''.jsonl'' \<and> Ext filePath \<noteq> [] then Inl InvalidExtension
      else if (case info of None \<Rightarrow> False | Some i \<Rightarrow> Size i > 100 * 1024 * 1024)
        then Inl FileTooLarge
      else Inr ())"

text \<open>
  \<open>isValidUUID\<close>: the regular expression
  \<open>^[0-9a-fA-F]{8}-[0-9a-fA-F]{4}-[0-9a-fA-F]{4}-[0-9a-fA-F]{4}-[0-9a-fA-F]{12}$\<close>.
\<close>

definition isHex :: "char \<Rightarrow> bool" where
  "isHex c = (c \<in> set ''0123456789abcdefABCDEF'')"

definition isValidUUID :: "string \<Rightarrow> bool" where
  "isValidUUID s =
     (length s = 36 \<and>
      list_all isHex (take 8 s) \<and> s ! 8 = CHR ''-'' \<and>
      list_all isHex (take 4 (drop 9 s)) \<and> s ! 13 = CHR ''-'' \<and>
      list_all isHex (take 4 (drop 14 s)) \<and> s ! 18 = CHR ''-'' \<and>
      list_all isHex (take 4 (drop 19 s)) \<and> s ! 23 = CHR ''-'' \<and>
      list_all isHex (drop 24 s))"

section \<open>HTTP handlers\<close>

text \<open>
  The state the handlers act on, a request as a handler reads it (\<open>Header\<close> is
  \<open>r.Header.Get\<close>, which gives the empty string for a missing header; \<open>Body\<close> is the
  decoded JSON body, \<open>None\<close> when decoding fails), and a handler: it returns the status
  code of the response and the new state.
\<close>

record world =
  fs :: filesystem
  cache :: sessionCache

record 'b request =
  Method :: string
  Header :: "string \<Rightarrow> string"
  PathValue :: "string \<Rightarrow> string"
  Body :: "'b option"

type_synonym 'b handler = "'b request \<Rightarrow> world \<Rightarrow> nat \<times> world"

definition StatusOK :: nat where "StatusOK = 200"
definition StatusBadRequest :: nat where "StatusBadRequest = 400"
definition StatusUnauthorized :: nat where "StatusUnauthorized = 401"
definition StatusNotFound :: nat where "StatusNotFound = 404"
definition StatusConflict :: nat where "StatusConflict = 409"
definition StatusInternalServerError :: nat where "StatusInternalServerError = 500"

definition authMiddleware :: "environ \<Rightarrow> 'b handler \<Rightarrow> 'b handler" where
  "authMiddleware env next r w =
     (let apiKey = Getenv env ''API_KEY'' in
      if apiKey = [] then next r w
      else if Header r ''X-API-Key'' \<noteq> apiKey then (StatusUnauthorized, w)
      else next r w)"

text \<open>\<open>corsMiddleware\<close> sets response headers only, and answers \<open>OPTIONS\<close> itself.\<close>

definition corsMiddleware :: "'b handler \<Rightarrow> 'b handler" where
  "corsMiddleware next r w = (if Method r = ''OPTIONS'' then (StatusOK, w) else next r w)"

text \<open>\<open>DELETE /api/projects/{projectName}/sessions/{sessionID}\<close>\<close>

definition deleteSessionHandler :: "environ \<Rightarrow> 'b handler" where
  "deleteSessionHandler env r w =
     (let projectName = PathValue r ''projectName'';
          sessionID = PathValue r ''sessionID'';
          sessionFile = Join [getClaudeProjectsDir env, projectName, sessionID @ ''.jsonl'']
      in case validatePath env sessionFile (getClaudeProjectsDir env) of
           Inl e \<Rightarrow> (StatusBadRequest, w)
         | Inr u \<Rightarrow>
        (case validateFileOperation (fs w) sessionFile ''delete'' of
           Inl e \<Rightarrow> (StatusBadRequest, w)
         | Inr u \<Rightarrow>
        (case Stat (fs w) sessionFile of
           None \<Rightarrow> (StatusNotFound, w)
         | Some info \<Rightarrow>
        (case Remove (fs w) sessionFile of
           Inl e \<Rightarrow> (StatusInternalServerError, w)
         | Inr fs' \<Rightarrow>
             (StatusOK, \<lparr>fs = fs', cache = invalidateSessionCache (cache w) projectName\<rparr>)))))"

definition deleteSessionRoute :: "environ \<Rightarrow> 'b handler" where
  "deleteSessionRoute env = corsMiddleware (deleteSessionHandler env)"

text \<open>\<open>POST /api/fork-session\<close>; the fields of the request body carry their JSON names.\<close>

record forkSessionBody =
  source_session :: string
  fork_session :: string
  project_name :: string

definition forkSessionHandler :: "environ \<Rightarrow> forkSessionBody handler" where
  "forkSessionHandler env r w =
     (case Body r of
        None \<Rightarrow> (StatusBadRequest, w)
      | Some req \<Rightarrow>
         (if \<not> isValidUUID (source_session req) \<or> \<not> isValidUUID (fork_session req)
            then (StatusBadRequest, w)
          else if project_name req = [] then (StatusBadRequest, w)
          else
           (let projectDir = Join [getClaudeProjectsDir env, project_name req];
                sourcePath = Join [projectDir, source_session req @ ''.jsonl''];
                forkPath = Join [projectDir, fork_session req @ ''.jsonl'']
            in
              (case validateFileOperation (fs w) sourcePath ''read'' of
                 Inl e \<Rightarrow> (StatusNotFound, w)
               | Inr u \<Rightarrow>
              (case Stat (fs w) forkPath of
                 Some info \<Rightarrow> (StatusConflict, w)
               | None \<Rightarrow>
              (case ReadFile (fs w) sourcePath of
                 Inl e \<Rightarrow> (StatusInternalServerError, w)
               | Inr content \<Rightarrow>
              (case MkdirAll (fs w) projectDir of
                 Inl e \<Rightarrow> (StatusInternalServerError, w)
               | Inr fs1 \<Rightarrow>
              (case WriteFile fs1 forkPath content of
                 Inl e \<Rightarrow> (StatusInternalServerError, \<lparr>fs = fs1, cache = cache w\<rparr>)
               | Inr fs2 \<Rightarrow>
                   (StatusOK,
                    \<lparr>fs = fs2,
                     cache = invalidateSessionCache (cache w) (project_name req)\<rparr>)))))))))"

definition forkSessionRoute :: "environ \<Rightarrow> forkSessionBody handler" where
  "forkSessionRoute env = authMiddleware env (corsMiddleware (forkSessionHandler env))"

section \<open>Chat turns and normalized events\<close>

text \<open>
  A \<open>context.Context\<close>: the background context, which is never cancelled, or the
  context of an HTTP request (\<open>r.Context()\<close>), identified by the request's number and
  cancelled when that request's client disconnects.
\<close>

datatype Context = Background | RequestContext nat

fun Done :: "nat list \<Rightarrow> Context \<Rightarrow> bool" where
  "Done disconnected Background = False"
| "Done disconnected (RequestContext n) = (n \<in> set disconnected)"

record ChatRequest =
  Message :: string
  SessionID :: "string option"
  ProjectName :: "string option"

record sseEvent =
  eventType :: string
  content :: string
  sessionID :: "string option"

section \<open>The upstream proxy\<close>

text \<open>
  A decoded JSON value. \<open>json.Unmarshal\<close> into a \<open>map[string]interface{}\<close> is a
  parameter \<open>Unmarshal\<close> of the model: it gives the members of the decoded object, or
  \<open>None\<close> when the text is not a JSON object.
\<close>

datatype jsonValue =
    JString string
  | JNumber int
  | JBool bool
  | JNull
  | JArray "jsonValue list"
  | JObject "(string \<times> jsonValue) list"

type_synonym jsonObject = "(string \<times> jsonValue) list"

text \<open>The type assertion \<open>data[key].(string)\<close>: the string and \<open>ok\<close>.\<close>

definition asString :: "jsonObject \<Rightarrow> string \<Rightarrow> string option" where
  "asString obj key = (case map_of obj key of Some (JString s) \<Rightarrow> Some s | _ \<Rightarrow> None)"

text \<open>
  What the outside world does with one call of the proxy: encoding the payload fails,
  building the request fails, sending it fails (no connection, or the context is
  cancelled), or a response arrives, with its status code, the bytes of its body that
  can be read, and the way reading ends once they are consumed.
\<close>

datatype readEnd = EOF | ReadError string

datatype upstream =
    MarshalFails string
  | NewRequestFails string
  | DoFails string
  | Response nat string readEnd

text \<open>Decimal digits of a number, for the verb \<open>%d\<close> of \<open>fmt.Sprintf\<close>.\<close>

function itoa :: "nat \<Rightarrow> string" where
  "itoa n = (if n < 10 then [''0123456789'' ! n] else itoa (n div 10) @ [''0123456789'' ! (n mod 10)])"
  by pat_completeness auto
termination
  by (relation "measure id") auto

declare itoa.simps [simp del]

text \<open>
  \<open>reader.ReadString('\n')\<close> on the unread bytes: the line up to and including the first
  line feed and the rest, or \<open>None\<close> when no line feed is left (the call then returns an
  error, \<open>io.EOF\<close> or a read error, and the proxy leaves its loop).
\<close>

definition ReadString :: "string \<Rightarrow> (string \<times> string) option" where
  "ReadString unread =
     (if CHR 0x0A \<in> set unread
      then Some (takeWhile (\<lambda>c. c \<noteq> CHR 0x0A) unread @ [CHR 0x0A],
                 tl (dropWhile (\<lambda>c. c \<noteq> CHR 0x0A) unread))
      else None)"

lemma ReadString_shorter: "ReadString unread = Some (line, rest) \<Longrightarrow> length rest < length unread"
proof -
  assume a: "ReadString unread = Some (line, rest)"
  then have nl: "CHR 0x0A \<in> set unread" and
    rest: "rest = tl (dropWhile (\<lambda>c. c \<noteq> CHR 0x0A) unread)"
    by (auto simp: ReadString_def split: if_splits)
  from nl have "dropWhile (\<lambda>c. c \<noteq> CHR 0x0A) unread \<noteq> []" by simp
  then have "length rest < length (dropWhile (\<lambda>c. c \<noteq> CHR 0x0A) unread)"
    using rest by (cases "dropWhile (\<lambda>c. c \<noteq> CHR 0x0A) unread") auto
  also have "\<dots> \<le> length unread" by (rule length_dropWhile_le)
  finally show ?thesis .
qed

text \<open>The events one line of the response body makes the proxy publish.\<close>

definition lineEvents :: "(string \<Rightarrow> jsonObject option) \<Rightarrow> string \<Rightarrow> string \<Rightarrow> sseEvent list" where
  "lineEvents Unmarshal sessionId rawLine =
     (let line = TrimSpace rawLine in
      if line = [] then []
      else if HasPrefix line ''data: '' then
        (case Unmarshal (TrimPrefix line ''data: '') of
           None \<Rightarrow> []
         | Some obj \<Rightarrow>
            (let evType = (case asString obj ''type'' of Some s \<Rightarrow> s | None \<Rightarrow> [])
             in if evType = ''text'' \<or> evType = ''content'' then
                  (case asString obj ''content'' of
                     Some c \<Rightarrow> [\<lparr>eventType = ''text'', content = c, sessionID = None\<rparr>]
                   | None \<Rightarrow>
                      (case asString obj ''text'' of
                         Some t \<Rightarrow> [\<lparr>eventType = ''text'', content = t, sessionID = None\<rparr>]
                       | None \<Rightarrow> []))
                else if evType = ''done'' \<or> evType = ''session_created'' then
                  [\<lparr>eventType = ''done'', content = [], sessionID = Some sessionId\<rparr>]
                else if evType = ''error'' then
                  (case asString obj ''error'' of
                     Some errorMsg \<Rightarrow>
                       [\<lparr>eventType = ''error'', content = errorMsg, sessionID = None\<rparr>]
                   | None \<Rightarrow> [])
                else []))
      else [])"

text \<open>The reading loop of the proxy: the events published until \<open>ReadString\<close> fails.\<close>

function readStream :: "(string \<Rightarrow> jsonObject option) \<Rightarrow> string \<Rightarrow> string \<Rightarrow> sseEvent list" where
  "readStream Unmarshal sessionId unread =
     (case ReadString unread of
        None \<Rightarrow> []
      | Some (line, rest) \<Rightarrow>
          lineEvents Unmarshal sessionId line @ readStream Unmarshal sessionId rest)"
  by pat_completeness auto
termination
  by (relation "measure (\<lambda>(Unmarshal, sessionId, unread). length unread)")
     (auto dest: ReadString_shorter)

declare readStream.simps [simp del]

text \<open>
  \<open>executeClaudeCLI\<close>: the sequence of events sent on the turn's channel, which the
  function closes when it returns (\<open>defer close(eventChan)\<close>). The request it makes is
  determined by the context, the chat request, the session id and the project
  directory; \<open>Upstream\<close> gives what the outside world does with that request. The
  parameter \<open>sessionExists\<close> is not used by the source either.
\<close>

definition executeClaudeCLI ::
  "(string \<Rightarrow> jsonObject option) \<Rightarrow> (Context \<Rightarrow> ChatRequest \<Rightarrow> string \<Rightarrow> string \<Rightarrow> upstream) \<Rightarrow>
   Context \<Rightarrow> ChatRequest \<Rightarrow> string \<Rightarrow> string \<Rightarrow> bool \<Rightarrow> sseEvent list" where
  "executeClaudeCLI Unmarshal Upstream cx req sessionId projectDir sessionExists =
     (case Upstream cx req sessionId projectDir of
        MarshalFails err \<Rightarrow>
          [\<lparr>eventType = ''error'', content = ''Erro ao criar payload: '' @ err, sessionID = None\<rparr>]
      | NewRequestFails err \<Rightarrow>
          [\<lparr>eventType = ''error'', content = ''Erro ao criar request: '' @ err, sessionID = None\<rparr>]
      | DoFails err \<Rightarrow>
          [\<lparr>eventType = ''error'', content = ''Erro ao conectar com Python: '' @ err,
            sessionID = None\<rparr>]
      | Response statusCode body ending \<Rightarrow>
          if statusCode \<noteq> 200 then
            [\<lparr>eventType = ''error'',
              content = ''Erro HTTP '' @ itoa statusCode @ '': '' @ body, sessionID = None\<rparr>]
          else readStream Unmarshal sessionId body)"

section \<open>The per-session message queue\<close>

text \<open>
  A queued message: the chat request, the channel its events are sent on (a
  \<open>chan<- sseEvent\<close>, identified here by its index in the table of channels) and its
  context.
\<close>

record queuedMessage =
  message :: ChatRequest
  response :: nat
  ctx :: Context

text \<open>
  The queue of one session. Every method locks \<open>mu\<close> on entry and unlocks it on return,
  so each method call is one atomic action; the mutex itself is not part of the state.
\<close>

record messageQueue =
  messages :: "queuedMessage list"
  processing :: bool

definition enqueue :: "messageQueue \<Rightarrow> queuedMessage \<Rightarrow> messageQueue" where
  "enqueue q msg = q\<lparr>messages := messages q @ [msg]\<rparr>"

text \<open>\<open>dequeue\<close> returns the message and \<open>true\<close>, or \<open>false\<close> (here \<open>None\<close>) on an empty queue.\<close>

definition dequeue :: "messageQueue \<Rightarrow> queuedMessage option \<times> messageQueue" where
  "dequeue q =
     (case messages q of
        [] \<Rightarrow> (None, q)
      | msg # rest \<Rightarrow> (Some msg, q\<lparr>messages := rest\<rparr>))"

definition isProcessing :: "messageQueue \<Rightarrow> bool" where
  "isProcessing q = processing q"

definition setProcessing :: "messageQueue \<Rightarrow> bool \<Rightarrow> messageQueue" where
  "setProcessing q b = q\<lparr>processing := b\<rparr>"

section \<open>Chat handlers and queue workers of one session\<close>

text \<open>
  The goroutines that share the queue of one session id: the chat handlers of the
  HTTP requests resolved to that session (from the call of \<open>getOrCreateQueue\<close> on), and
  the workers started by \<open>go processQueue(...)\<close>. A goroutine is at one of the following
  points of its code; one step takes it to the next. The steps are the calls of the
  queue's methods (atomic under the queue's mutex), the \<open>go\<close> statement, the call of
  \<open>executeClaudeCLI\<close> (which ends by closing the turn's channel) and the handler's loop
  over its channel (which ends when the channel is closed).
\<close>

datatype handlerPoint =
    AtEnqueue
  | AtIsProcessing
  | AtSetProcessing
  | AtGo
  | AtRange
  | Returned

datatype workerPoint =
    AtDequeue
  | AtExecute queuedMessage
  | AtSetIdle
  | Exited

record channel =
  buffer :: "sseEvent list"
  closed :: bool

record system =
  queue :: messageQueue
  handlers :: "handlerPoint list"
  workers :: "workerPoint list"
  channels :: "channel list"
  requests :: "ChatRequest list"

text \<open>
  What the workers of the session are given and what surrounds them: the session id and
  project directory the handlers resolved, the files on disk, JSON decoding and the
  upstream.
\<close>

record runtime =
  session :: string
  projectDirectory :: string
  disk :: filesystem
  jsonUnmarshal :: "string \<Rightarrow> jsonObject option"
  httpUpstream :: "Context \<Rightarrow> ChatRequest \<Rightarrow> string \<Rightarrow> string \<Rightarrow> upstream"

text \<open>
  The chat handler of request \<open>i\<close>, from the creation of its channel on: it enqueues its
  message with \<open>ctx := context.Background()\<close>, calls \<open>isProcessing\<close>, and if the answer was
  \<open>false\<close> calls \<open>setProcessing(true)\<close> and starts a worker; then it reads its channel
  until it is closed.
\<close>

definition handlerStep :: "nat \<Rightarrow> system \<Rightarrow> system option" where
  "handlerStep i s =
     (if i \<ge> length (handlers s) \<or> i \<ge> length (requests s) \<or> i \<ge> length (channels s) then None
      else case handlers s ! i of
        AtEnqueue \<Rightarrow>
          Some (s\<lparr>queue := enqueue (queue s)
                              \<lparr>message = requests s ! i, response = i, ctx = Background\<rparr>,
                  handlers := (handlers s)[i := AtIsProcessing]\<rparr>)
      | AtIsProcessing \<Rightarrow>
          Some (s\<lparr>handlers :=
                    (handlers s)[i := if \<not> isProcessing (queue s) then AtSetProcessing else AtRange]\<rparr>)
      | AtSetProcessing \<Rightarrow>
          Some (s\<lparr>queue := setProcessing (queue s) True, handlers := (handlers s)[i := AtGo]\<rparr>)
      | AtGo \<Rightarrow>
          Some (s\<lparr>workers := workers s @ [AtDequeue], handlers := (handlers s)[i := AtRange]\<rparr>)
      | AtRange \<Rightarrow>
          if closed (channels s ! i) then Some (s\<lparr>handlers := (handlers s)[i := Returned]\<rparr>)
          else None
      | Returned \<Rightarrow> None)"

text \<open>
  \<open>processQueue\<close>, run by worker \<open>j\<close>: it calls \<open>dequeue\<close>; on an empty queue it calls
  \<open>setProcessing(false)\<close> and returns; otherwise it probes the session file and calls
  \<open>executeClaudeCLI\<close> with the context, request and channel of the message, and loops.
\<close>

definition workerStep :: "runtime \<Rightarrow> nat \<Rightarrow> system \<Rightarrow> system option" where
  "workerStep rt j s =
     (if j \<ge> length (workers s) then None
      else case workers s ! j of
        AtDequeue \<Rightarrow>
          (case dequeue (queue s) of
             (None, q) \<Rightarrow> Some (s\<lparr>queue := q, workers := (workers s)[j := AtSetIdle]\<rparr>)
           | (Some msg, q) \<Rightarrow> Some (s\<lparr>queue := q, workers := (workers s)[j := AtExecute msg]\<rparr>))
      | AtExecute msg \<Rightarrow>
          (let sessionFile = Join [projectDirectory rt, session rt @ ''.jsonl''];
               sessionExists = (Stat (disk rt) sessionFile \<noteq> None);
               events = executeClaudeCLI (jsonUnmarshal rt) (httpUpstream rt) (ctx msg)
                          (message msg) (session rt) (projectDirectory rt) sessionExists
           in Some (s\<lparr>channels := (channels s)[response msg := \<lparr>buffer = events, closed = True\<rparr>],
                      workers := (workers s)[j := AtDequeue]\<rparr>))
      | AtSetIdle \<Rightarrow>
          Some (s\<lparr>queue := setProcessing (queue s) False, workers := (workers s)[j := Exited]\<rparr>)
      | Exited \<Rightarrow> None)"

text \<open>Schedules: which goroutine takes the next step. A blocked or finished one cannot.\<close>

datatype thread = Handler nat | Worker nat

fun step :: "runtime \<Rightarrow> thread \<Rightarrow> system \<Rightarrow> system option" where
  "step rt (Handler i) s = handlerStep i s"
| "step rt (Worker j) s = workerStep rt j s"

fun run :: "runtime \<Rightarrow> thread list \<Rightarrow> system \<Rightarrow> system option" where
  "run rt [] s = Some s"
| "run rt (t # ts) s = (case step rt t s of None \<Rightarrow> None | Some s' \<Rightarrow> run rt ts s')"

text \<open>
  The session when its queue has just been created (\<open>getOrCreateQueue\<close>: no message,
  \<open>processing: false\<close>) and the given requests have arrived.
\<close>

definition init :: "ChatRequest list \<Rightarrow> system" where
  "init reqs =
     \<lparr>queue = \<lparr>messages = [], processing = False\<rparr>,
      handlers = replicate (length reqs) AtEnqueue,
      workers = [],
      channels = replicate (length reqs) \<lparr>buffer = [], closed = False\<rparr>,
      requests = reqs\<rparr>"

text \<open>A worker that has taken a message and not yet finished its call of the proxy.\<close>

fun executing :: "workerPoint \<Rightarrow> bool" where
  "executing (AtExecute msg) = True"
| "executing p = False"

text \<open>Every queued turn and every turn being executed carries the background context.\<close>

definition backgroundOnly :: "system \<Rightarrow> bool" where
  "backgroundOnly s =
     (list_all (\<lambda>m. ctx m = Background) (messages (queue s)) \<and>
      list_all (\<lambda>p. case p of AtExecute m \<Rightarrow> ctx m = Background | _ \<Rightarrow> True) (workers s))"

section \<open>Properties of the string functions\<close>

lemma spaceRunes_prefix_free:
  "\<forall>p\<in>set spaceRunes. \<forall>q\<in>set spaceRunes. prefix p q \<longrightarrow> p = q"
  by (simp add: spaceRunes_def)

lemma spaceRunes_nonempty: "p \<in> set spaceRunes \<Longrightarrow> p \<noteq> []"
  by (auto simp: spaceRunes_def)

lemma Contains_set: "Contains s sub \<Longrightarrow> set sub \<subseteq> set s"
proof (induction s)
  case Nil
  then show ?case by simp
next
  case (Cons c cs)
  then show ?case using set_mono_prefix [of sub "c # cs"] by auto
qed

lemma leadingSpace_append:
  assumes "p \<in> set spaceRunes"
  shows "leadingSpace (p @ s) = length p"
proof (cases "find (\<lambda>q. prefix q (p @ s)) spaceRunes")
  case None
  then have "\<not> prefix p (p @ s)" using assms by (auto simp: find_None_iff)
  then show ?thesis by simp
next
  case (Some q)
  then have q: "q \<in> set spaceRunes" "prefix q (p @ s)"
    by (auto simp: find_Some_iff)
  have "prefix p (p @ s)" by simp
  with q(2) have "prefix p q \<or> prefix q p" by (metis prefix_same_cases)
  with q(1) assms have "p = q" using spaceRunes_prefix_free by blast
  with Some show ?thesis by (simp add: leadingSpace_def)
qed

text \<open>A string made of white-space code points only is trimmed to the empty string.\<close>

lemma TrimLeftSpace_concat:
  "set ws \<subseteq> set spaceRunes \<Longrightarrow> TrimLeftSpace (concat ws) = []"
proof (induction ws)
  case Nil
  have "leadingSpace [] = 0" using leadingSpace_le [of "[]"] by simp
  then show ?case by (subst TrimLeftSpace.simps) simp
next
  case (Cons p ws)
  then have p: "p \<in> set spaceRunes" and ws: "TrimLeftSpace (concat ws) = []" by auto
  have l: "leadingSpace (p @ concat ws) = length p" by (rule leadingSpace_append [OF p])
  have "length p \<noteq> 0" using spaceRunes_nonempty [OF p] by simp
  with l ws show ?case by (subst TrimLeftSpace.simps) simp
qed

lemma TrimRightSpace_Nil: "TrimRightSpace [] = []"
proof -
  have "trailingSpace [] = 0" using trailingSpace_le [of "[]"] by simp
  then show ?thesis by (subst TrimRightSpace.simps) simp
qed

lemma TrimSpace_concat: "set ws \<subseteq> set spaceRunes \<Longrightarrow> TrimSpace (concat ws) = []"
  by (simp add: TrimSpace_def TrimLeftSpace_concat TrimRightSpace_Nil)

lemma TrimSpace_single_space: "TrimSpace '' '' = []"
  using TrimSpace_concat [of "['' '']"] by (simp add: spaceRunes_def)

lemmas TrimSpace_eval =
  TrimSpace_def TrimLeftSpace.simps TrimRightSpace.simps leadingSpace_def trailingSpace_def
  spaceRunes_def suffix_to_prefix

lemma TrimSpace_hello: "TrimSpace ''hello'' = ''hello''"
  by (simp add: TrimSpace_eval)

section \<open>Message sanitation\<close>

lemma sanitizeMessage_Inr_iff:
  "sanitizeMessage msg = Inr r \<longleftrightarrow>
     r = msg \<and> length msg \<le> 10000 \<and> TrimSpace msg \<noteq> [] \<and>
     (\<forall>d \<in> set dangerous. \<not> Contains msg d)"
proof (cases "find (Contains msg) dangerous")
  case None
  then have "\<forall>d \<in> set dangerous. \<not> Contains msg d" by (simp add: find_None_iff)
  with None show ?thesis by (auto simp: sanitizeMessage_def)
next
  case (Some d)
  then have "d \<in> set dangerous \<and> Contains msg d" by (auto simp: find_Some_iff)
  with Some show ?thesis by (auto simp: sanitizeMessage_def)
qed

text \<open>
  Claim C10. Whenever \<open>sanitizeMessage\<close> returns without error, the string it returns
  is the input itself, byte for byte: the function only validates (at most 10000 bytes,
  not empty after \<open>TrimSpace\<close>, none of the strings of \<open>dangerous\<close> occurring in it), and
  every message passing these three checks is accepted unchanged. A message that
  \<open>TrimSpace\<close> reduces to the empty string is rejected; in particular every message of at
  most 10000 bytes made of white-space code points only is rejected as empty, also one
  (a single space) in which no string of \<open>dangerous\<close> occurs.
\<close>

theorem sanitizeMessage_validates_only:
  "(sanitizeMessage msg = Inr r \<longrightarrow>
      r = msg \<and> length msg \<le> 10000 \<and> TrimSpace msg \<noteq> [] \<and>
      (\<forall>d \<in> set dangerous. \<not> Contains msg d)) \<and>
   (length msg \<le> 10000 \<and> TrimSpace msg \<noteq> [] \<and> (\<forall>d \<in> set dangerous. \<not> Contains msg d) \<longrightarrow>
      sanitizeMessage msg = Inr msg) \<and>
   (TrimSpace msg = [] \<longrightarrow> (\<exists>e. sanitizeMessage msg = Inl e)) \<and>
   (set ws \<subseteq> set spaceRunes \<and> length (concat ws) \<le> 10000 \<longrightarrow>
      sanitizeMessage (concat ws) = Inl MessageEmpty)"
proof -
  have a: "sanitizeMessage msg = Inr r \<longrightarrow>
      r = msg \<and> length msg \<le> 10000 \<and> TrimSpace msg \<noteq> [] \<and>
      (\<forall>d \<in> set dangerous. \<not> Contains msg d)"
    using sanitizeMessage_Inr_iff [of msg r] by blast
  have b: "length msg \<le> 10000 \<and> TrimSpace msg \<noteq> [] \<and>
      (\<forall>d \<in> set dangerous. \<not> Contains msg d) \<longrightarrow> sanitizeMessage msg = Inr msg"
    using sanitizeMessage_Inr_iff [of msg msg] by blast
  have c: "TrimSpace msg = [] \<longrightarrow> (\<exists>e. sanitizeMessage msg = Inl e)"
    by (simp add: sanitizeMessage_def)
  have d: "set ws \<subseteq> set spaceRunes \<and> length (concat ws) \<le> 10000 \<longrightarrow>
      sanitizeMessage (concat ws) = Inl MessageEmpty"
    by (simp add: sanitizeMessage_def TrimSpace_concat)
  from a b c d show ?thesis by blast
qed

theorem sanitizeMessage_validates_only_witness:
  "sanitizeMessage ''hello'' = Inr ''hello'' \<and>
   length '' '' \<le> 10000 \<and> \<not> list_ex (Contains '' '') dangerous \<and>
   sanitizeMessage '' '' = Inl MessageEmpty"
proof -
  note T = sanitizeMessage_validates_only [of "''hello''" "''hello''" "['' '']"]
  have h: "length ''hello'' \<le> 10000 \<and> TrimSpace ''hello'' \<noteq> [] \<and>
           (\<forall>d \<in> set dangerous. \<not> Contains ''hello'' d)"
    by (simp add: TrimSpace_hello dangerous_def)
  have w: "set ['' ''] \<subseteq> set spaceRunes \<and> length (concat ['' '']) \<le> 10000"
    by (simp add: spaceRunes_def)
  have 1: "sanitizeMessage ''hello'' = Inr ''hello''" using T h by blast
  have "sanitizeMessage (concat ['' '']) = Inl MessageEmpty" using T w by blast
  then have 2: "sanitizeMessage '' '' = Inl MessageEmpty" by simp
  have 3: "length '' '' \<le> 10000" by simp
  have 4: "\<not> list_ex (Contains '' '') dangerous" by (simp add: dangerous_def)
  from 1 2 3 4 show ?thesis by blast
qed

section \<open>Project names\<close>

lemma sanitizeProjectName_Inr_iff:
  "sanitizeProjectName name = Inr r \<longleftrightarrow>
     r = name \<and> \<not> ContainsAny name projectNameChars \<and> length name \<le> 255 \<and> TrimSpace name \<noteq> []"
  by (auto simp: sanitizeProjectName_def)

lemma ContainsAny_projectNameChars:
  "ContainsAny name projectNameChars \<longleftrightarrow>
     set name \<inter> {CHR ''/'', CHR 0x5C, CHR '':'', CHR ''*'', CHR ''?'', CHR 0x22, CHR ''<'',
                  CHR ''>'', CHR ''|'', CHR ''.''} \<noteq> {}"
  by (auto simp: ContainsAny_def projectNameChars_def list_ex_iff)

lemma Contains_dotdot: "Contains name ''..'' \<Longrightarrow> CHR ''.'' \<in> set name"
  using Contains_set [of name "''..''"] by simp

lemma TrimSpace_Nil: "TrimSpace [] = []"
  using TrimSpace_concat [of "[]"] by simp

text \<open>
  Claim C8, as stated, fails: the name consisting of one space is not empty, has at most
  255 bytes, contains none of the nine listed characters and no \<open>..\<close>, and is rejected
  (as an empty name, by the \<open>TrimSpace\<close> guard). So is the name \<open>a.b\<close>: the character
  set given to \<open>strings.ContainsAny\<close> contains the full stop.
\<close>

theorem sanitizeProjectName_blank_counterexample:
  "'' '' \<noteq> [] \<and> length '' '' \<le> 255 \<and>
   set '' '' \<inter> {CHR ''/'', CHR 0x5C, CHR '':'', CHR ''*'', CHR ''?'', CHR 0x22, CHR ''<'',
                 CHR ''>'', CHR ''|''} = {} \<and>
   \<not> Contains '' '' ''..'' \<and>
   sanitizeProjectName '' '' = Inl NameEmpty \<and>
   ''a.b'' \<noteq> [] \<and> length ''a.b'' \<le> 255 \<and>
   set ''a.b'' \<inter> {CHR ''/'', CHR 0x5C, CHR '':'', CHR ''*'', CHR ''?'', CHR 0x22, CHR ''<'',
                 CHR ''>'', CHR ''|''} = {} \<and>
   \<not> Contains ''a.b'' ''..'' \<and>
   sanitizeProjectName ''a.b'' = Inl NameInvalidCharacters"
  by (simp add: sanitizeProjectName_def TrimSpace_single_space ContainsAny_def projectNameChars_def)

text \<open>
  Claim C8, amended. Every project name of at most 255 bytes that is not empty after
  \<open>TrimSpace\<close> and contains none of the characters \<open>/ \ : * ? " < > |\<close> and no
  full stop is accepted and returned unchanged. Every name that is empty, blank, longer
  than 255 bytes, or that contains \<open>..\<close> or one of the nine characters is rejected.
  An accepted name is always returned unchanged.
\<close>

theorem sanitizeProjectName_accepts:
  "(TrimSpace name \<noteq> [] \<and> length name \<le> 255 \<and>
    set name \<inter> {CHR ''/'', CHR 0x5C, CHR '':'', CHR ''*'', CHR ''?'', CHR 0x22, CHR ''<'',
                 CHR ''>'', CHR ''|'', CHR ''.''} = {} \<longrightarrow>
      sanitizeProjectName name = Inr name) \<and>
   (name = [] \<or> TrimSpace name = [] \<or> length name > 255 \<or> Contains name ''..'' \<or>
    set name \<inter> {CHR ''/'', CHR 0x5C, CHR '':'', CHR ''*'', CHR ''?'', CHR 0x22, CHR ''<'',
                 CHR ''>'', CHR ''|''} \<noteq> {} \<longrightarrow>
      (\<exists>e. sanitizeProjectName name = Inl e)) \<and>
   (sanitizeProjectName name = Inr r \<longrightarrow> r = name)"
proof -
  have a: "TrimSpace name \<noteq> [] \<and> length name \<le> 255 \<and>
    set name \<inter> {CHR ''/'', CHR 0x5C, CHR '':'', CHR ''*'', CHR ''?'', CHR 0x22, CHR ''<'',
                 CHR ''>'', CHR ''|'', CHR ''.''} = {} \<longrightarrow>
      sanitizeProjectName name = Inr name"
    by (simp add: sanitizeProjectName_Inr_iff ContainsAny_projectNameChars)
  have b: "(\<exists>e. sanitizeProjectName name = Inl e)"
    if "name = [] \<or> TrimSpace name = [] \<or> length name > 255 \<or> Contains name ''..'' \<or>
    set name \<inter> {CHR ''/'', CHR 0x5C, CHR '':'', CHR ''*'', CHR ''?'', CHR 0x22, CHR ''<'',
                 CHR ''>'', CHR ''|''} \<noteq> {}"
  proof -
    from that consider "TrimSpace name = []" | "length name > 255"
      | "ContainsAny name projectNameChars"
      using TrimSpace_Nil Contains_dotdot [of name] ContainsAny_projectNameChars [of name]
      by blast
    then show ?thesis by cases (auto simp: sanitizeProjectName_def)
  qed
  have c: "sanitizeProjectName name = Inr r \<longrightarrow> r = name"
    by (simp add: sanitizeProjectName_Inr_iff)
  from a b c show ?thesis by blast
qed

theorem sanitizeProjectName_accepts_witness:
  "sanitizeProjectName ''my-project'' = Inr ''my-project'' \<and>
   (\<exists>e. sanitizeProjectName ''a..b'' = Inl e)"
proof -
  have h: "TrimSpace ''my-project'' \<noteq> [] \<and> length ''my-project'' \<le> 255 \<and>
    set ''my-project'' \<inter> {CHR ''/'', CHR 0x5C, CHR '':'', CHR ''*'', CHR ''?'', CHR 0x22, CHR ''<'',
                 CHR ''>'', CHR ''|'', CHR ''.''} = {}"
    by (simp add: TrimSpace_eval)
  have 1: "sanitizeProjectName ''my-project'' = Inr ''my-project''"
    using sanitizeProjectName_accepts [of "''my-project''" "''my-project''"] h by blast
  have g: "Contains ''a..b'' ''..''" by simp
  have 2: "\<exists>e. sanitizeProjectName ''a..b'' = Inl e"
    using sanitizeProjectName_accepts [of "''a..b''" "''a..b''"] g by blast
  from 1 2 show ?thesis by blast
qed

section \<open>Path validation: properties\<close>

lemmas path_eval = Clean_def cleanElem_def Join_def IsAbs_def HasPrefix_def Abs_def Let_def

lemma Contains_dotdot_slash:
  "Contains (a @ CHR ''/'' # b) ''..'' \<longleftrightarrow> Contains a ''..'' \<or> Contains b ''..''"
proof (induction a)
  case Nil
  then show ?case by simp
next
  case (Cons x xs)
  show ?case
  proof (cases xs)
    case Nil
    then show ?thesis by simp
  next
    case (Cons y ys)
    with Cons.IH show ?thesis by auto
  qed
qed

lemma Contains_joinSlash:
  "Contains (joinSlash out) ''..'' \<Longrightarrow> \<exists>e \<in> set out. Contains e ''..''"
proof (induction out rule: joinSlash.induct)
  case 1
  then show ?case by simp
next
  case (2 e)
  then show ?case by simp
next
  case (3 e e' es)
  from "3.prems" have "Contains (e @ CHR ''/'' # joinSlash (e' # es)) ''..''" by simp
  then have "Contains e ''..'' \<or> Contains (joinSlash (e' # es)) ''..''"
    by (simp only: Contains_dotdot_slash)
  with "3.IH" show ?case by auto
qed

lemma cleanElem_rooted_keeps:
  assumes "\<forall>x \<in> set out. \<not> Contains x ''..''" and "e = ''..'' \<or> \<not> Contains e ''..''"
  shows "\<forall>x \<in> set (cleanElem True out e). \<not> Contains x ''..''"
proof -
  have "set (butlast out) \<subseteq> set out" by (auto dest: in_set_butlastD)
  with assms show ?thesis by (auto simp: cleanElem_def)
qed

lemma foldl_cleanElem_rooted_keeps:
  "\<forall>x \<in> set out. \<not> Contains x ''..'' \<Longrightarrow>
   \<forall>e \<in> set es. e = ''..'' \<or> \<not> Contains e ''..'' \<Longrightarrow>
   \<forall>x \<in> set (foldl (cleanElem True) out es). \<not> Contains x ''..''"
proof (induction es arbitrary: out)
  case Nil
  then show ?case by simp
next
  case (Cons e es)
  from Cons.prems have "\<forall>x \<in> set (cleanElem True out e). \<not> Contains x ''..''"
    by (intro cleanElem_rooted_keeps) auto
  moreover from Cons.prems(2) have "\<forall>e \<in> set es. e = ''..'' \<or> \<not> Contains e ''..''" by simp
  ultimately have "\<forall>x \<in> set (foldl (cleanElem True) (cleanElem True out e) es). \<not> Contains x ''..''"
    by (rule Cons.IH)
  then show ?case by simp
qed

text \<open>
  Cleaning an absolute path resolves its \<open>..\<close> elements: when \<open>..\<close> occurs in the
  path only as a whole element, the cleaned path does not contain \<open>..\<close>.
\<close>

lemma Clean_absolute_no_dotdot:
  assumes "IsAbs path" and "\<forall>e \<in> set (splitSlash path). e = ''..'' \<or> \<not> Contains e ''..''"
  shows "\<not> Contains (Clean path) ''..''"
proof
  assume c: "Contains (Clean path) ''..''"
  from assms(1) have ne: "path \<noteq> []" and hd: "hd path = CHR ''/''"
    by (auto simp: IsAbs_def HasPrefix_def prefix_def)
  let ?out = "foldl (cleanElem True) [] (splitSlash path)"
  from ne hd have "Clean path = CHR ''/'' # joinSlash ?out" by (simp add: Clean_def Let_def)
  with c have "Contains (joinSlash ?out) ''..''" by simp
  then obtain e where "e \<in> set ?out" "Contains e ''..''" using Contains_joinSlash by blast
  moreover have "\<forall>x \<in> set ?out. \<not> Contains x ''..''"
    using assms(2) by (intro foldl_cleanElem_rooted_keeps) auto
  ultimately show False by blast
qed

lemma validatePath_Inr_iff:
  "validatePath env path basePath = Inr u \<longleftrightarrow>
     \<not> Contains (Clean path) ''..'' \<and>
     (\<exists>absPath absBase. Abs env (Clean path) = Some absPath \<and> Abs env basePath = Some absBase \<and>
        prefix absBase absPath)"
  by (auto simp: validatePath_def Let_def HasPrefix_def split: option.splits)

text \<open>
  Claim C7, as stated, fails: the path \<open>/home/u/.claude/projects/p/../q.jsonl\<close> contains
  \<open>..\<close> and is accepted for the root \<open>/home/u/.claude/projects\<close>, because the test for
  \<open>..\<close> is made on the cleaned path \<open>/home/u/.claude/projects/q.jsonl\<close>.
\<close>

theorem validatePath_original_dotdot_counterexample:
  "Contains ''/home/u/.claude/projects/p/../q.jsonl'' ''..'' \<and>
   validatePath \<lparr>Getenv = (\<lambda>v. []), UserHomeDir = Some ''/home/u'', Getwd = Some ''/srv''\<rparr>
     ''/home/u/.claude/projects/p/../q.jsonl'' ''/home/u/.claude/projects'' = Inr ()"
  by (simp add: validatePath_def path_eval)

text \<open>
  Claim C7, amended. \<open>validatePath\<close> fails whenever the cleaned form of the path contains
  \<open>..\<close>, whenever the absolute form of the cleaned path or of the root cannot be computed,
  and whenever the cleaned absolute form of the path does not have the root's absolute
  form as a prefix; in every other case it succeeds. A \<open>..\<close> of the original path is no
  reason to fail when cleaning resolves it: for an absolute path in which \<open>..\<close> occurs
  only as a whole path element, the cleaned form contains no \<open>..\<close>.
\<close>

theorem validatePath_checks_cleaned_path:
  "(Contains (Clean path) ''..'' \<longrightarrow> validatePath env path basePath = Inl PathContainsDotDot) \<and>
   (\<forall>absPath absBase.
      Abs env (Clean path) = Some absPath \<and> Abs env basePath = Some absBase \<and>
      \<not> prefix absBase absPath \<longrightarrow> (\<exists>e. validatePath env path basePath = Inl e)) \<and>
   (Abs env (Clean path) = None \<or> Abs env basePath = None \<longrightarrow>
      (\<exists>e. validatePath env path basePath = Inl e)) \<and>
   (\<not> Contains (Clean path) ''..'' \<and>
    (\<exists>absPath absBase. Abs env (Clean path) = Some absPath \<and> Abs env basePath = Some absBase \<and>
        prefix absBase absPath) \<longrightarrow> validatePath env path basePath = Inr ()) \<and>
   (IsAbs path \<and> (\<forall>e \<in> set (splitSlash path). e = ''..'' \<or> \<not> Contains e ''..'') \<longrightarrow>
      \<not> Contains (Clean path) ''..'')"
proof -
  have e: "IsAbs path \<and> (\<forall>e \<in> set (splitSlash path). e = ''..'' \<or> \<not> Contains e ''..'') \<longrightarrow>
      \<not> Contains (Clean path) ''..''"
    using Clean_absolute_no_dotdot [of path] by blast
  have a: "Contains (Clean path) ''..'' \<longrightarrow> validatePath env path basePath = Inl PathContainsDotDot"
    by (simp add: validatePath_def)
  have b: "\<exists>e. validatePath env path basePath = Inl e"
    if "Abs env (Clean path) = Some absPath \<and> Abs env basePath = Some absBase \<and>
      \<not> prefix absBase absPath" for absPath absBase
    using that by (auto simp: validatePath_def Let_def HasPrefix_def)
  have c: "Abs env (Clean path) = None \<or> Abs env basePath = None \<longrightarrow>
      (\<exists>e. validatePath env path basePath = Inl e)"
    by (auto simp: validatePath_def Let_def split: option.splits)
  have d: "\<not> Contains (Clean path) ''..'' \<and>
    (\<exists>absPath absBase. Abs env (Clean path) = Some absPath \<and> Abs env basePath = Some absBase \<and>
        prefix absBase absPath) \<longrightarrow> validatePath env path basePath = Inr ()"
    using validatePath_Inr_iff [of env path basePath "()"] by blast
  from a b c d e show ?thesis by blast
qed

theorem validatePath_checks_cleaned_path_witness:
  "validatePath \<lparr>Getenv = (\<lambda>v. []), UserHomeDir = None, Getwd = Some ''/srv''\<rparr>
     ''../etc/passwd'' ''/srv/data'' = Inl PathContainsDotDot \<and>
   (\<exists>e. validatePath \<lparr>Getenv = (\<lambda>v. []), UserHomeDir = None, Getwd = Some ''/srv''\<rparr>
     ''/etc/passwd'' ''/srv/data'' = Inl e) \<and>
   (\<exists>e. validatePath \<lparr>Getenv = (\<lambda>v. []), UserHomeDir = None, Getwd = None\<rparr>
     ''data/x'' ''/srv/data'' = Inl e) \<and>
   validatePath \<lparr>Getenv = (\<lambda>v. []), UserHomeDir = None, Getwd = Some ''/srv''\<rparr>
     ''data/p/s.jsonl'' ''/srv/data'' = Inr () \<and>
   \<not> Contains (Clean ''/srv/data/p/../q.jsonl'') ''..''"
proof -
  let ?env = "\<lparr>Getenv = (\<lambda>v. []), UserHomeDir = None, Getwd = Some ''/srv''\<rparr>"
  let ?nowd = "\<lparr>Getenv = (\<lambda>v. []), UserHomeDir = None, Getwd = None\<rparr>"
  have h1: "Contains (Clean ''../etc/passwd'') ''..''" by (simp add: path_eval)
  have 1: "validatePath ?env ''../etc/passwd'' ''/srv/data'' = Inl PathContainsDotDot"
    using validatePath_checks_cleaned_path [of "''../etc/passwd''" ?env "''/srv/data''"] h1
    by blast
  have h2: "Abs ?env (Clean ''/etc/passwd'') = Some ''/etc/passwd'' \<and>
            Abs ?env ''/srv/data'' = Some ''/srv/data'' \<and> \<not> prefix ''/srv/data'' ''/etc/passwd''"
    by (simp add: path_eval)
  have 2: "\<exists>e. validatePath ?env ''/etc/passwd'' ''/srv/data'' = Inl e"
    using validatePath_checks_cleaned_path [of "''/etc/passwd''" ?env "''/srv/data''"] h2
    by blast
  have h3: "Abs ?nowd (Clean ''data/x'') = None" by (simp add: path_eval)
  have 3: "\<exists>e. validatePath ?nowd ''data/x'' ''/srv/data'' = Inl e"
    using validatePath_checks_cleaned_path [of "''data/x''" ?nowd "''/srv/data''"] h3
    by blast
  have h4a: "\<not> Contains (Clean ''data/p/s.jsonl'') ''..''" by (simp add: path_eval)
  have h4b: "Abs ?env (Clean ''data/p/s.jsonl'') = Some ''/srv/data/p/s.jsonl''"
    by (simp add: path_eval)
  have h4c: "Abs ?env ''/srv/data'' = Some ''/srv/data''" by (simp add: path_eval)
  have h4d: "prefix ''/srv/data'' ''/srv/data/p/s.jsonl''" by simp
  note h4 = h4a h4b h4c h4d
  have 4: "validatePath ?env ''data/p/s.jsonl'' ''/srv/data'' = Inr ()"
    using validatePath_checks_cleaned_path [of "''data/p/s.jsonl''" ?env "''/srv/data''"] h4
    by blast
  have h5: "IsAbs ''/srv/data/p/../q.jsonl'' \<and>
    (\<forall>e \<in> set (splitSlash ''/srv/data/p/../q.jsonl''). e = ''..'' \<or> \<not> Contains e ''..'')"
    by (simp add: IsAbs_def HasPrefix_def)
  have 5: "\<not> Contains (Clean ''/srv/data/p/../q.jsonl'') ''..''"
    using validatePath_checks_cleaned_path [of "''/srv/data/p/../q.jsonl''" ?env "''/srv/data''"] h5
    by blast
  from 1 2 3 4 5 show ?thesis by blast
qed

section \<open>Session life cycle: delete and fork\<close>

lemmas status_defs = StatusOK_def StatusBadRequest_def StatusUnauthorized_def StatusNotFound_def
  StatusConflict_def StatusInternalServerError_def

lemmas dir_eval = getClaudeBaseDir_def getClaudeProjectsDir_def getClaudeProjetosDir_def

lemmas fs_eval = Stat_def Remove_def ReadFile_def WriteFile_def Mkdir_def MkdirAll.simps
  parentExists_def parentDir_def Ext_def validateFileOperation_def

lemma authMiddleware_rejects:
  "Getenv env ''API_KEY'' \<noteq> [] \<Longrightarrow> Header r ''X-API-Key'' \<noteq> Getenv env ''API_KEY'' \<Longrightarrow>
   authMiddleware env next r w = (StatusUnauthorized, w)"
  by (simp add: authMiddleware_def)

lemma deleteSessionHandler_never_404:
  "fst (deleteSessionHandler env r w) \<noteq> StatusNotFound"
  by (auto simp: deleteSessionHandler_def Let_def validateFileOperation_def status_defs
           split: sum.splits option.splits if_splits)

lemma deleteSessionHandler_missing_file:
  "Stat (fs w) (Join [getClaudeProjectsDir env, PathValue r ''projectName'',
                      PathValue r ''sessionID'' @ ''.jsonl'']) = None \<Longrightarrow>
   deleteSessionHandler env r w = (StatusBadRequest, w)"
  by (auto simp: deleteSessionHandler_def Let_def validateFileOperation_def
           split: sum.splits option.splits if_splits)

text \<open>
  Claim C5 says that deleting a session whose file does not exist is answered with 404.
  In the handler the test that answers 404 comes after \<open>validateFileOperation\<close>, which
  already fails when the file is missing, so the answer is 400 (and, by
  \<open>deleteSessionHandler_never_404\<close>, never 404). Here for the project \<open>P\<close> and the
  session \<open>nonexistent\<close>: the file is missing, the answer is 400, and nothing changes.
\<close>

theorem deleteSession_missing_file_400:
  "Stat [(''/home/u/.claude/projects/P'', Directory)]
        ''/home/u/.claude/projects/P/nonexistent.jsonl'' = None \<and>
   deleteSessionRoute
     \<lparr>Getenv = (\<lambda>v. []), UserHomeDir = Some ''/home/u'', Getwd = Some ''/srv''\<rparr>
     \<lparr>Method = ''DELETE'', Header = (\<lambda>h. []),
      PathValue = (\<lambda>k. if k = ''projectName'' then ''P''
                         else if k = ''sessionID'' then ''nonexistent'' else []),
      Body = (None :: unit option)\<rparr>
     \<lparr>fs = [(''/home/u/.claude/projects/P'', Directory)], cache = Map.empty\<rparr>
   = (400, \<lparr>fs = [(''/home/u/.claude/projects/P'', Directory)], cache = Map.empty\<rparr>)"
  by (simp add: deleteSessionRoute_def corsMiddleware_def deleteSessionHandler_def
        validatePath_def path_eval dir_eval fs_eval status_defs)

lemma forkSessionRoute_unauthorized:
  "Getenv env ''API_KEY'' \<noteq> [] \<Longrightarrow> Header r ''X-API-Key'' \<noteq> Getenv env ''API_KEY'' \<Longrightarrow>
   forkSessionRoute env r w = (StatusUnauthorized, w)"
  by (simp add: forkSessionRoute_def authMiddleware_rejects)

text \<open>
  Claim C6 says that every mutating endpoint rejects a request with a wrong API key
  when \<open>API_KEY\<close> is set. The route of the delete-session endpoint is not wrapped in
  \<open>authMiddleware\<close> (the fork-session route is, see \<open>forkSessionRoute_unauthorized\<close>):
  with \<open>API_KEY = secret\<close> and no \<open>X-API-Key\<close> header, the request is answered with 200
  and the session file is removed.
\<close>

theorem deleteSession_without_api_key:
  "Getenv \<lparr>Getenv = (\<lambda>v. if v = ''API_KEY'' then ''secret'' else []),
      UserHomeDir = Some ''/home/u'', Getwd = Some ''/srv''\<rparr> ''API_KEY'' = ''secret'' \<and>
   Header \<lparr>Method = ''DELETE'', Header = (\<lambda>h. []),
      PathValue = (\<lambda>k. if k = ''projectName'' then ''P''
                         else if k = ''sessionID'' then ''s1'' else []),
      Body = (None :: unit option)\<rparr> ''X-API-Key'' = [] \<and>
   deleteSessionRoute
     \<lparr>Getenv = (\<lambda>v. if v = ''API_KEY'' then ''secret'' else []),
      UserHomeDir = Some ''/home/u'', Getwd = Some ''/srv''\<rparr>
     \<lparr>Method = ''DELETE'', Header = (\<lambda>h. []),
      PathValue = (\<lambda>k. if k = ''projectName'' then ''P''
                         else if k = ''sessionID'' then ''s1'' else []),
      Body = (None :: unit option)\<rparr>
     \<lparr>fs = [(''/home/u/.claude/projects/P'', Directory),
            (''/home/u/.claude/projects/P/s1.jsonl'', File ''{}'')],
      cache = Map.empty\<rparr>
   = (200, \<lparr>fs = [(''/home/u/.claude/projects/P'', Directory)], cache = Map.empty\<rparr>)"
  by (simp add: deleteSessionRoute_def corsMiddleware_def deleteSessionHandler_def
        validatePath_def path_eval dir_eval fs_eval status_defs invalidateSessionCache_def)


lemma Mkdir_keeps:
  "Mkdir t p = Inr t' \<Longrightarrow> Stat t q = Some n \<Longrightarrow> Stat t' q = Some n"
  by (auto simp: Mkdir_def Stat_def update_conv' split: if_splits)

lemma MkdirAll_keeps:
  "MkdirAll t p = Inr t' \<Longrightarrow> Stat t q = Some n \<Longrightarrow> Stat t' q = Some n"
proof (induction t p arbitrary: t' rule: MkdirAll.induct)
  case (1 t path)
  show ?case
  proof (cases "Stat t path")
    case None
    show ?thesis
    proof (cases "parentDir path")
      case N: None
      with None "1.prems"(1) have "Mkdir t path = Inr t'"
        by (simp add: MkdirAll.simps)
      then show ?thesis using "1.prems"(2) by (rule Mkdir_keeps)
    next
      case (Some parent)
      with None "1.prems"(1) obtain t1 where
        a: "MkdirAll t parent = Inr t1" and b: "Mkdir t1 path = Inr t'"
        by (auto simp: MkdirAll.simps [of t path] split: sum.splits)
      from "1.IH" [OF None Some a "1.prems"(2)] have "Stat t1 q = Some n" .
      with b show ?thesis by (rule Mkdir_keeps)
    qed
  next
    case (Some node)
    with "1.prems" show ?thesis
      by (cases node) (auto simp: MkdirAll.simps [of t path])
  qed
qed

lemma WriteFile_result:
  "WriteFile t p bytes = Inr t' \<Longrightarrow>
   Stat t' p = Some (File bytes) \<and> (\<forall>q. q \<noteq> p \<longrightarrow> Stat t' q = Stat t q)"
  by (auto simp: WriteFile_def Stat_def update_conv' split: if_splits)

lemma validateFileOperation_read_exists:
  "validateFileOperation t p ''read'' = Inr u \<Longrightarrow> \<exists>bytes. Stat t p = Some (File bytes)"
  by (cases "Stat t p"; cases "the (Stat t p)")
     (auto simp: validateFileOperation_def Let_def split: if_splits)

lemma ReadFile_Inr_iff: "ReadFile t p = Inr bytes \<longleftrightarrow> Stat t p = Some (File bytes)"
  by (auto simp: ReadFile_def split: option.splits node.splits)

lemma forkSessionHandler_ok:
  assumes ok: "forkSessionHandler env r w = (StatusOK, w')"
  shows "\<exists>req bytes.
     Body r = Some req \<and> isValidUUID (source_session req) \<and> isValidUUID (fork_session req) \<and>
     Stat (fs w) (Join [Join [getClaudeProjectsDir env, project_name req],
                        fork_session req @ ''.jsonl'']) = None \<and>
     ReadFile (fs w) (Join [Join [getClaudeProjectsDir env, project_name req],
                            source_session req @ ''.jsonl'']) = Inr bytes \<and>
     ReadFile (fs w') (Join [Join [getClaudeProjectsDir env, project_name req],
                             fork_session req @ ''.jsonl'']) = Inr bytes \<and>
     ReadFile (fs w') (Join [Join [getClaudeProjectsDir env, project_name req],
                             source_session req @ ''.jsonl'']) = Inr bytes \<and>
     cache w' (project_name req) = None"
proof -
  from ok obtain req where req: "Body r = Some req"
    by (cases "Body r") (auto simp: forkSessionHandler_def status_defs)
  define projectDir where "projectDir = Join [getClaudeProjectsDir env, project_name req]"
  define sourcePath where "sourcePath = Join [projectDir, source_session req @ ''.jsonl'']"
  define forkPath where "forkPath = Join [projectDir, fork_session req @ ''.jsonl'']"
  note paths = projectDir_def sourcePath_def forkPath_def
  from ok req have uu: "isValidUUID (source_session req)" "isValidUUID (fork_session req)"
    by (auto simp: forkSessionHandler_def status_defs split: if_splits)
  from ok req uu obtain u bytes t1 t2 where
    v: "validateFileOperation (fs w) sourcePath ''read'' = Inr u" and
    st: "Stat (fs w) forkPath = None" and
    rd: "ReadFile (fs w) sourcePath = Inr bytes" and
    mk: "MkdirAll (fs w) projectDir = Inr t1" and
    wr: "WriteFile t1 forkPath bytes = Inr t2" and
    w': "w' = \<lparr>fs = t2, cache = invalidateSessionCache (cache w) (project_name req)\<rparr>"
    by (auto simp: forkSessionHandler_def status_defs Let_def paths
             split: if_splits sum.splits option.splits)
  from rd have src: "Stat (fs w) sourcePath = Some (File bytes)"
    by (simp add: ReadFile_Inr_iff)
  with st have ne: "sourcePath \<noteq> forkPath" by auto
  from MkdirAll_keeps [OF mk src] have "Stat t1 sourcePath = Some (File bytes)" .
  with WriteFile_result [OF wr] ne
  have "Stat t2 forkPath = Some (File bytes)" "Stat t2 sourcePath = Some (File bytes)"
    by auto
  with w' have "ReadFile (fs w') forkPath = Inr bytes" "ReadFile (fs w') sourcePath = Inr bytes"
    "cache w' (project_name req) = None"
    by (auto simp: ReadFile_Inr_iff invalidateSessionCache_def)
  with req uu st rd show ?thesis unfolding paths by blast
qed


text \<open>
  Claim C9. Whenever a fork-session request is answered with 200, its body was decoded,
  both ids are UUID-shaped, the target file did not exist before, and the target file
  afterwards holds exactly the bytes the source file held when it was read; the source
  file still holds them, so reading the target and reading the source give the same
  bytes. The project's cache entry is gone.
\<close>

theorem forkSession_byte_identical:
  assumes post: "Method r = ''POST''"
    and ok: "forkSessionRoute env r w = (StatusOK, w')"
  shows "\<exists>req bytes.
     Body r = Some req \<and> isValidUUID (source_session req) \<and> isValidUUID (fork_session req) \<and>
     Stat (fs w) (Join [Join [getClaudeProjectsDir env, project_name req],
                        fork_session req @ ''.jsonl'']) = None \<and>
     ReadFile (fs w) (Join [Join [getClaudeProjectsDir env, project_name req],
                            source_session req @ ''.jsonl'']) = Inr bytes \<and>
     ReadFile (fs w') (Join [Join [getClaudeProjectsDir env, project_name req],
                             fork_session req @ ''.jsonl'']) = Inr bytes \<and>
     ReadFile (fs w') (Join [Join [getClaudeProjectsDir env, project_name req],
                             source_session req @ ''.jsonl'']) = Inr bytes \<and>
     cache w' (project_name req) = None"
proof -
  from post ok have "forkSessionHandler env r w = (StatusOK, w')"
    by (auto simp: forkSessionRoute_def authMiddleware_def corsMiddleware_def Let_def status_defs
             split: if_splits)
  then show ?thesis by (rule forkSessionHandler_ok)
qed

theorem forkSession_byte_identical_witness:
  "forkSessionRoute
     \<lparr>Getenv = (\<lambda>v. []), UserHomeDir = Some ''/home/u'', Getwd = Some ''/srv''\<rparr>
     \<lparr>Method = ''POST'', Header = (\<lambda>h. []), PathValue = (\<lambda>k. []),
      Body = Some \<lparr>source_session = ''11111111-1111-4111-8111-111111111111'',
                    fork_session = ''22222222-2222-4222-8222-222222222222'',
                    project_name = ''P''\<rparr>\<rparr>
     \<lparr>fs = [(''/home/u/.claude/projects/P'', Directory),
            (''/home/u/.claude/projects/P/11111111-1111-4111-8111-111111111111.jsonl'',
             File ''[1,2,3]'')],
      cache = Map.empty\<rparr>
   = (StatusOK,
      \<lparr>fs = [(''/home/u/.claude/projects/P'', Directory),
            (''/home/u/.claude/projects/P/11111111-1111-4111-8111-111111111111.jsonl'',
             File ''[1,2,3]''),
            (''/home/u/.claude/projects/P/22222222-2222-4222-8222-222222222222.jsonl'',
             File ''[1,2,3]'')],
       cache = Map.empty\<rparr>) \<and>
   (\<exists>bytes.
      ReadFile [(''/home/u/.claude/projects/P'', Directory),
            (''/home/u/.claude/projects/P/11111111-1111-4111-8111-111111111111.jsonl'',
             File ''[1,2,3]''),
            (''/home/u/.claude/projects/P/22222222-2222-4222-8222-222222222222.jsonl'',
             File ''[1,2,3]'')]
        ''/home/u/.claude/projects/P/22222222-2222-4222-8222-222222222222.jsonl'' = Inr bytes \<and>
      ReadFile [(''/home/u/.claude/projects/P'', Directory),
            (''/home/u/.claude/projects/P/11111111-1111-4111-8111-111111111111.jsonl'',
             File ''[1,2,3]''),
            (''/home/u/.claude/projects/P/22222222-2222-4222-8222-222222222222.jsonl'',
             File ''[1,2,3]'')]
        ''/home/u/.claude/projects/P/11111111-1111-4111-8111-111111111111.jsonl'' = Inr bytes)"
proof -
  let ?e = "\<lparr>Getenv = (\<lambda>v. []), UserHomeDir = Some ''/home/u'', Getwd = Some ''/srv''\<rparr>"
  let ?b = "\<lparr>source_session = ''11111111-1111-4111-8111-111111111111'',
                    fork_session = ''22222222-2222-4222-8222-222222222222'',
                    project_name = ''P''\<rparr>"
  let ?r = "\<lparr>Method = ''POST'', Header = (\<lambda>h. []), PathValue = (\<lambda>k. []), Body = Some ?b\<rparr>"
  let ?w = "\<lparr>fs = [(''/home/u/.claude/projects/P'', Directory),
            (''/home/u/.claude/projects/P/11111111-1111-4111-8111-111111111111.jsonl'',
             File ''[1,2,3]'')],
      cache = Map.empty\<rparr>"
  let ?t = "[(''/home/u/.claude/projects/P'', Directory),
            (''/home/u/.claude/projects/P/11111111-1111-4111-8111-111111111111.jsonl'',
             File ''[1,2,3]''),
            (''/home/u/.claude/projects/P/22222222-2222-4222-8222-222222222222.jsonl'',
             File ''[1,2,3]'')]"
  let ?v = "\<lparr>fs = ?t, cache = Map.empty\<rparr>"
  have p1: "Join [Join [getClaudeProjectsDir ?e, ''P''], ''22222222-2222-4222-8222-222222222222'' @ ''.jsonl'']
            = ''/home/u/.claude/projects/P/22222222-2222-4222-8222-222222222222.jsonl''"
    by (simp add: path_eval dir_eval)
  have p2: "Join [Join [getClaudeProjectsDir ?e, ''P''], ''11111111-1111-4111-8111-111111111111'' @ ''.jsonl'']
            = ''/home/u/.claude/projects/P/11111111-1111-4111-8111-111111111111.jsonl''"
    by (simp add: path_eval dir_eval)
  have m: "Method ?r = ''POST''" by simp
  have run: "forkSessionRoute ?e ?r ?w = (StatusOK, ?v)"
    by (simp add: forkSessionRoute_def authMiddleware_def corsMiddleware_def forkSessionHandler_def
          isValidUUID_def isHex_def path_eval dir_eval fs_eval invalidateSessionCache_def)
  from forkSession_byte_identical [OF m run] obtain req bytes where
    "Body ?r = Some req" and
    "ReadFile (fs ?v) (Join [Join [getClaudeProjectsDir ?e, project_name req],
                             fork_session req @ ''.jsonl'']) = Inr bytes" and
    "ReadFile (fs ?v) (Join [Join [getClaudeProjectsDir ?e, project_name req],
                             source_session req @ ''.jsonl'']) = Inr bytes"
    by blast
  then have "ReadFile ?t ''/home/u/.claude/projects/P/22222222-2222-4222-8222-222222222222.jsonl'' = Inr bytes \<and>
    ReadFile ?t ''/home/u/.claude/projects/P/11111111-1111-4111-8111-111111111111.jsonl'' = Inr bytes"
    using p1 p2 by auto
  with run show ?thesis by blast
qed

section \<open>The upstream proxy: properties\<close>

lemma ReadString_append_nl:
  "CHR 0x0A \<notin> set l \<Longrightarrow> ReadString (l @ CHR 0x0A # rest) = Some (l @ [CHR 0x0A], rest)"
proof -
  assume "CHR 0x0A \<notin> set l"
  then have a: "\<And>x. x \<in> set l \<Longrightarrow> x \<noteq> CHR 0x0A" by auto
  have "takeWhile (\<lambda>c. c \<noteq> CHR 0x0A) (l @ CHR 0x0A # rest) = l"
    using a by (simp add: takeWhile_append2)
  moreover have "dropWhile (\<lambda>c. c \<noteq> CHR 0x0A) (l @ CHR 0x0A # rest) = CHR 0x0A # rest"
    using a by (simp add: dropWhile_append2)
  ultimately show ?thesis by (simp add: ReadString_def)
qed

lemma ReadString_None: "CHR 0x0A \<notin> set s \<Longrightarrow> ReadString s = None"
  by (simp add: ReadString_def)

text \<open>The complete lines of a body, each with its line feed; an unterminated tail is dropped.\<close>

lemma readStream_line:
  "CHR 0x0A \<notin> set l \<Longrightarrow>
   readStream U sid (l @ CHR 0x0A # rest) = lineEvents U sid (l @ [CHR 0x0A]) @ readStream U sid rest"
  by (subst readStream.simps) (simp add: ReadString_append_nl)

lemma readStream_no_line: "CHR 0x0A \<notin> set s \<Longrightarrow> readStream U sid s = []"
  by (subst readStream.simps) (simp add: ReadString_None)

lemma readStream_lines:
  "\<forall>l \<in> set ls. CHR 0x0A \<notin> set l \<Longrightarrow> CHR 0x0A \<notin> set tail \<Longrightarrow>
   readStream U sid (concat (map (\<lambda>l. l @ [CHR 0x0A]) ls) @ tail)
     = concat (map (\<lambda>l. lineEvents U sid (l @ [CHR 0x0A])) ls)"
proof (induction ls)
  case Nil
  then show ?case by (simp add: readStream_no_line)
next
  case (Cons l ls)
  then show ?case by (simp add: readStream_line)
qed

lemma lineEvents_cases:
  "lineEvents U sid line = [] \<or>
   (\<exists>c. lineEvents U sid line = [\<lparr>eventType = ''text'', content = c, sessionID = None\<rparr>]) \<or>
   lineEvents U sid line = [\<lparr>eventType = ''done'', content = [], sessionID = Some sid\<rparr>] \<or>
   (\<exists>c. lineEvents U sid line = [\<lparr>eventType = ''error'', content = c, sessionID = None\<rparr>])"
proof (cases "U (TrimPrefix (TrimSpace line) ''data: '')")
  case None
  then show ?thesis by (simp add: lineEvents_def Let_def)
next
  case (Some obj)
  then show ?thesis
    by (cases "asString obj ''content''"; cases "asString obj ''text''";
        cases "asString obj ''error''")
       (simp_all add: lineEvents_def Let_def)
qed

lemma lineEvents_types:
  "e \<in> set (lineEvents U sid line) \<Longrightarrow> eventType e \<in> {''text'', ''done'', ''error''}"
  using lineEvents_cases [of U sid line] by auto

lemma lineEvents_length: "length (lineEvents U sid line) \<le> 1"
  using lineEvents_cases [of U sid line] by auto


lemma body_lines:
  "\<exists>ls tail. body = concat (map (\<lambda>l. l @ [CHR 0x0A]) ls) @ tail \<and>
     (\<forall>l \<in> set ls. CHR 0x0A \<notin> set l) \<and> CHR 0x0A \<notin> set tail"
proof (induction body)
  case Nil
  have "[] = concat (map (\<lambda>l. l @ [CHR 0x0A]) []) @ [] \<and>
     (\<forall>l \<in> set ([] :: string list). CHR 0x0A \<notin> set l) \<and> CHR 0x0A \<notin> set []"
    by simp
  then show ?case by blast
next
  case (Cons c cs)
  then obtain ls tail where
    cs: "cs = concat (map (\<lambda>l. l @ [CHR 0x0A]) ls) @ tail" and
    ls: "\<forall>l \<in> set ls. CHR 0x0A \<notin> set l" and tail: "CHR 0x0A \<notin> set tail"
    by blast
  show ?case
  proof (cases "c = CHR 0x0A")
    case True
    with cs ls tail have "c # cs = concat (map (\<lambda>l. l @ [CHR 0x0A]) ([] # ls)) @ tail \<and>
      (\<forall>l \<in> set ([] # ls). CHR 0x0A \<notin> set l) \<and> CHR 0x0A \<notin> set tail"
      by simp
    then show ?thesis by blast
  next
    case False
    show ?thesis
    proof (cases ls)
      case Nil
      with cs tail False have "c # cs = concat (map (\<lambda>l. l @ [CHR 0x0A]) []) @ (c # tail) \<and>
        (\<forall>l \<in> set ([] :: string list). CHR 0x0A \<notin> set l) \<and> CHR 0x0A \<notin> set (c # tail)"
        by simp
      then show ?thesis by blast
    next
      case (Cons l ls')
      with cs ls tail False
      have "c # cs = concat (map (\<lambda>l. l @ [CHR 0x0A]) ((c # l) # ls')) @ tail \<and>
        (\<forall>l \<in> set ((c # l) # ls'). CHR 0x0A \<notin> set l) \<and> CHR 0x0A \<notin> set tail"
        by simp
      then show ?thesis by blast
    qed
  qed
qed

lemma executeClaudeCLI_200:
  "Upstream cx req sid dir = Response 200 (concat (map (\<lambda>l. l @ [CHR 0x0A]) ks) @ tail) ending \<Longrightarrow>
   \<forall>l \<in> set ks. CHR 0x0A \<notin> set l \<Longrightarrow> CHR 0x0A \<notin> set tail \<Longrightarrow>
   executeClaudeCLI U Upstream cx req sid dir ex
     = concat (map (\<lambda>l. lineEvents U sid (l @ [CHR 0x0A])) ks)"
  by (simp add: executeClaudeCLI_def readStream_lines)

text \<open>
  Claim C2, as stated, fails. An upstream that answers 200 and whose connection breaks
  before the first line is complete makes the proxy publish nothing before it closes the
  channel (the read error is only logged); so does a 200 response whose only frame cannot
  be decoded (the decoding error is only logged). In both cases the sequence of events is
  empty: it has no last element, and no \<open>error\<close> event reports the failure.
\<close>

theorem executeClaudeCLI_no_terminal_event_counterexample:
  "executeClaudeCLI (\<lambda>text. None)
     (\<lambda>cx req sessionId projectDir. Response 200 [] (ReadError ''connection reset by peer''))
     Background \<lparr>Message = ''hi'', SessionID = None, ProjectName = None\<rparr>
     ''00000000-0000-0000-0000-000000000001'' ''/home/u/.claude'' False = [] \<and>
   executeClaudeCLI (\<lambda>text. None)
     (\<lambda>cx req sessionId projectDir. Response 200 (''data: {not json'' @ [CHR 0x0A]) EOF)
     Background \<lparr>Message = ''hi'', SessionID = None, ProjectName = None\<rparr>
     ''00000000-0000-0000-0000-000000000001'' ''/home/u/.claude'' False = []"
proof -
  have t: "TrimSpace (''data: {not json'' @ [CHR 0x0A]) = ''data: {not json''"
    by (simp add: TrimSpace_eval)
  have l: "lineEvents (\<lambda>text. None) ''00000000-0000-0000-0000-000000000001''
             (''data: {not json'' @ [CHR 0x0A]) = []"
    unfolding lineEvents_def t by (simp add: HasPrefix_def)
  have "readStream (\<lambda>text. None) ''00000000-0000-0000-0000-000000000001''
          (''data: {not json'' @ CHR 0x0A # [])
        = lineEvents (\<lambda>text. None) ''00000000-0000-0000-0000-000000000001''
            (''data: {not json'' @ [CHR 0x0A])
          @ readStream (\<lambda>text. None) ''00000000-0000-0000-0000-000000000001'' []"
    by (rule readStream_line) simp
  also have "\<dots> = []" unfolding l by (simp add: readStream_no_line)
  finally have r: "readStream (\<lambda>text. None) ''00000000-0000-0000-0000-000000000001''
          (''data: {not json'' @ [CHR 0x0A]) = []"
    by simp
  have 1: "executeClaudeCLI (\<lambda>text. None)
     (\<lambda>cx req sessionId projectDir. Response 200 [] (ReadError ''connection reset by peer''))
     Background \<lparr>Message = ''hi'', SessionID = None, ProjectName = None\<rparr>
     ''00000000-0000-0000-0000-000000000001'' ''/home/u/.claude'' False = []"
    by (simp add: executeClaudeCLI_def readStream_no_line)
  have 2: "executeClaudeCLI (\<lambda>text. None)
     (\<lambda>cx req sessionId projectDir. Response 200 (''data: {not json'' @ [CHR 0x0A]) EOF)
     Background \<lparr>Message = ''hi'', SessionID = None, ProjectName = None\<rparr>
     ''00000000-0000-0000-0000-000000000001'' ''/home/u/.claude'' False = []"
    unfolding executeClaudeCLI_def using r by simp
  from 1 2 show ?thesis by (rule conjI)
qed


text \<open>
  Claim C2, amended. When encoding the payload, building the request or sending it fails,
  or the response status is not 200, the proxy publishes exactly one \<open>error\<close> event and
  closes the channel. For a 200 response it publishes the events of the complete lines of
  the body, in order (an unterminated last line is dropped); whenever the last complete
  line makes it publish an event (a \<open>done\<close> or \<open>session_created\<close> frame, an \<open>error\<close> frame
  with a string message, a \<open>text\<close> or \<open>content\<close> frame with a string), the published sequence
  is not empty and that event is its last element. Every published event is a \<open>text\<close>, a
  \<open>done\<close> or an \<open>error\<close> event. (A read error in mid-stream and a frame that cannot be
  decoded publish nothing.)
\<close>

theorem executeClaudeCLI_events:
  "((Upstream cx req sid dir = MarshalFails err \<or> Upstream cx req sid dir = NewRequestFails err \<or>
     Upstream cx req sid dir = DoFails err \<or>
     (Upstream cx req sid dir = Response code body ending \<and> code \<noteq> 200)) \<longrightarrow>
      (\<exists>c. executeClaudeCLI U Upstream cx req sid dir ex
             = [\<lparr>eventType = ''error'', content = c, sessionID = None\<rparr>])) \<and>
   (Upstream cx req sid dir
       = Response 200 (concat (map (\<lambda>l. l @ [CHR 0x0A]) ls) @ tail) ending \<and>
    (\<forall>l \<in> set ls. CHR 0x0A \<notin> set l) \<and> CHR 0x0A \<notin> set tail \<longrightarrow>
      executeClaudeCLI U Upstream cx req sid dir ex
        = concat (map (\<lambda>l. lineEvents U sid (l @ [CHR 0x0A])) ls)) \<and>
   (Upstream cx req sid dir
       = Response 200 (concat (map (\<lambda>l. l @ [CHR 0x0A]) (ls @ [final])) @ tail) ending \<and>
    (\<forall>l \<in> set ls. CHR 0x0A \<notin> set l) \<and> CHR 0x0A \<notin> set final \<and> CHR 0x0A \<notin> set tail \<and>
    lineEvents U sid (final @ [CHR 0x0A]) = [e] \<longrightarrow>
      executeClaudeCLI U Upstream cx req sid dir ex \<noteq> [] \<and>
      last (executeClaudeCLI U Upstream cx req sid dir ex) = e) \<and>
   (\<forall>e \<in> set (executeClaudeCLI U Upstream cx req sid dir ex).
      eventType e \<in> {''text'', ''done'', ''error''})"
proof -
  let ?E = "executeClaudeCLI U Upstream cx req sid dir ex"
  have a: "\<exists>c. ?E = [\<lparr>eventType = ''error'', content = c, sessionID = None\<rparr>]"
    if "Upstream cx req sid dir = MarshalFails err \<or> Upstream cx req sid dir = NewRequestFails err \<or>
        Upstream cx req sid dir = DoFails err \<or>
        (Upstream cx req sid dir = Response code body ending \<and> code \<noteq> 200)"
    using that by (auto simp: executeClaudeCLI_def)
  note b = executeClaudeCLI_200 [where U = U and Upstream = Upstream and cx = cx and req = req
      and sid = sid and dir = dir and ex = ex]
  have c: "?E \<noteq> [] \<and> last ?E = e"
    if "Upstream cx req sid dir
          = Response 200 (concat (map (\<lambda>l. l @ [CHR 0x0A]) (ls @ [final])) @ tail) ending \<and>
        (\<forall>l \<in> set ls. CHR 0x0A \<notin> set l) \<and> CHR 0x0A \<notin> set final \<and> CHR 0x0A \<notin> set tail \<and>
        lineEvents U sid (final @ [CHR 0x0A]) = [e]"
  proof -
    from that have "?E = concat (map (\<lambda>l. lineEvents U sid (l @ [CHR 0x0A])) (ls @ [final]))"
      by (intro b [of "ls @ [final]" tail ending]) auto
    with that show ?thesis by simp
  qed
  have d: "\<forall>e \<in> set ?E. eventType e \<in> {''text'', ''done'', ''error''}"
  proof (cases "Upstream cx req sid dir")
    case (Response code' body' ending')
    show ?thesis
    proof (cases "code' = 200")
      case True
      obtain ks tl' where "body' = concat (map (\<lambda>l. l @ [CHR 0x0A]) ks) @ tl'"
        "\<forall>l \<in> set ks. CHR 0x0A \<notin> set l" "CHR 0x0A \<notin> set tl'"
        using body_lines [of body'] by blast
      with Response True
      have "?E = concat (map (\<lambda>l. lineEvents U sid (l @ [CHR 0x0A])) ks)"
        by (intro b [of ks tl' ending']) auto
      then show ?thesis by (auto dest: lineEvents_types)
    next
      case False
      with Response show ?thesis by (simp add: executeClaudeCLI_def)
    qed
  qed (simp_all add: executeClaudeCLI_def)
  from a b [of ls tail ending] c d show ?thesis by blast
qed


theorem executeClaudeCLI_events_witness:
  "(\<exists>c. executeClaudeCLI (\<lambda>text. None)
          (\<lambda>cx req sessionId projectDir. Response 500 ''boom'' EOF)
          Background \<lparr>Message = ''hi'', SessionID = None, ProjectName = None\<rparr>
          ''S'' ''/home/u/.claude'' False
        = [\<lparr>eventType = ''error'', content = c, sessionID = None\<rparr>]) \<and>
   last (executeClaudeCLI
          (\<lambda>text. if text = ''{'' @ [CHR 0x22] @ ''type'' @ [CHR 0x22] @ '':'' @ [CHR 0x22] @ ''done''
                               @ [CHR 0x22] @ ''}''
                     then Some [(''type'', JString ''done'')] else None)
          (\<lambda>cx req sessionId projectDir.
             Response 200 (''data: {'' @ [CHR 0x22] @ ''type'' @ [CHR 0x22] @ '':'' @ [CHR 0x22]
                           @ ''done'' @ [CHR 0x22] @ ''}'' @ [CHR 0x0A]) EOF)
          Background \<lparr>Message = ''hi'', SessionID = None, ProjectName = None\<rparr>
          ''S'' ''/home/u/.claude'' False)
     = \<lparr>eventType = ''done'', content = [], sessionID = Some ''S''\<rparr>"
proof -
  let ?rq = "\<lparr>Message = ''hi'', SessionID = None, ProjectName = None\<rparr>"
  let ?json = "''{'' @ [CHR 0x22] @ ''type'' @ [CHR 0x22] @ '':'' @ [CHR 0x22] @ ''done''
               @ [CHR 0x22] @ ''}''"
  let ?U = "\<lambda>text. if text = ?json then Some [(''type'', JString ''done'')] else None"
  let ?frame = "''data: '' @ ?json"
  let ?up = "\<lambda>cx req sessionId projectDir. Response 200 (?frame @ [CHR 0x0A]) EOF"
  let ?down = "\<lambda>(cx::Context) (req::ChatRequest) (sessionId::string) (projectDir::string).
                 Response 500 ''boom'' EOF"
  have 1: "\<exists>c. executeClaudeCLI (\<lambda>text. None) ?down Background ?rq ''S'' ''/home/u/.claude'' False
        = [\<lparr>eventType = ''error'', content = c, sessionID = None\<rparr>]"
    using executeClaudeCLI_events
      [of ?down Background ?rq "''S''" "''/home/u/.claude''" _ 500 "''boom''" EOF "\<lambda>text. None" False]
    by simp
  have t: "TrimSpace (?frame @ [CHR 0x0A]) = ?frame" by (simp add: TrimSpace_eval)
  have l: "lineEvents ?U ''S'' (?frame @ [CHR 0x0A])
             = [\<lparr>eventType = ''done'', content = [], sessionID = Some ''S''\<rparr>]"
    unfolding lineEvents_def t by (simp add: HasPrefix_def TrimPrefix_def asString_def)
  have h: "?up Background ?rq ''S'' ''/home/u/.claude''
             = Response 200 (concat (map (\<lambda>l. l @ [CHR 0x0A]) ([] @ [?frame])) @ []) EOF \<and>
           (\<forall>l \<in> set ([] :: string list). CHR 0x0A \<notin> set l) \<and> CHR 0x0A \<notin> set ?frame \<and>
           CHR 0x0A \<notin> set []"
    by simp
  have 2: "last (executeClaudeCLI ?U ?up Background ?rq ''S'' ''/home/u/.claude'' False)
             = \<lparr>eventType = ''done'', content = [], sessionID = Some ''S''\<rparr>"
    using executeClaudeCLI_events
      [of ?up Background ?rq "''S''" "''/home/u/.claude''" _ _ _ EOF ?U False "[]" "[]" ?frame
          "\<lparr>eventType = ''done'', content = [], sessionID = Some ''S''\<rparr>"] h l
    by blast
  from 1 2 show ?thesis by simp
qed

section \<open>Handlers and workers of one session: properties\<close>

lemmas queue_eval = handlerStep_def workerStep_def init_def enqueue_def dequeue_def
  isProcessing_def setProcessing_def

text \<open>
  Claim C1 says that two chat handlers of one session can never both start a worker. In
  the handler, \<open>isProcessing()\<close> and \<open>setProcessing(true)\<close> are two separate critical
  sections. With two requests for the same session: both handlers enqueue, both call
  \<open>isProcessing\<close> and get \<open>false\<close>, both call \<open>setProcessing(true)\<close> and start a worker; each
  worker dequeues one message, and both are then executing the proxy for the session.
\<close>

theorem two_workers_for_one_session:
  "map_option workers
     (run \<lparr>session = ''S'', projectDirectory = ''/home/u/.claude'', disk = [],
           jsonUnmarshal = (\<lambda>text. None),
           httpUpstream = (\<lambda>cx req sessionId projectDir. Response 200 [] EOF)\<rparr>
        [Handler 0, Handler 1, Handler 0, Handler 1, Handler 0, Handler 0, Handler 1, Handler 1,
         Worker 0, Worker 1]
        (init [\<lparr>Message = ''first'', SessionID = Some ''S'', ProjectName = None\<rparr>,
               \<lparr>Message = ''second'', SessionID = Some ''S'', ProjectName = None\<rparr>]))
   = Some [AtExecute \<lparr>message = \<lparr>Message = ''first'', SessionID = Some ''S'', ProjectName = None\<rparr>,
                      response = 0, ctx = Background\<rparr>,
           AtExecute \<lparr>message = \<lparr>Message = ''second'', SessionID = Some ''S'', ProjectName = None\<rparr>,
                      response = 1, ctx = Background\<rparr>] \<and>
   length (filter executing
     [AtExecute \<lparr>message = \<lparr>Message = ''first'', SessionID = Some ''S'', ProjectName = None\<rparr>,
                 response = 0, ctx = Background\<rparr>,
      AtExecute \<lparr>message = \<lparr>Message = ''second'', SessionID = Some ''S'', ProjectName = None\<rparr>,
                 response = 1, ctx = Background\<rparr>]) = 2"
  by (simp add: queue_eval)


text \<open>
  Claim C3 says that \<open>dequeue\<close> on an empty queue clears the processing flag in the same
  critical section. \<open>dequeue\<close> leaves the flag as it is; the worker clears it afterwards by
  a separate call of \<open>setProcessing(false)\<close>. Between the two a second handler can enqueue
  its message and find \<open>processing = true\<close>: it starts no worker, the first worker then
  clears the flag and exits, and the second message stays in the queue with no worker
  and no goroutine able to take a step, the second handler waiting on its channel.
\<close>

theorem dequeue_empty_keeps_flag_and_strands_turn:
  "dequeue \<lparr>messages = [], processing = True\<rparr> = (None, \<lparr>messages = [], processing = True\<rparr>) \<and>
   (\<exists>s. run \<lparr>session = ''S'', projectDirectory = ''/home/u/.claude'', disk = [],
                jsonUnmarshal = (\<lambda>text. None),
                httpUpstream = (\<lambda>cx req sessionId projectDir. Response 200 [] EOF)\<rparr>
             [Handler 0, Handler 0, Handler 0, Handler 0, Worker 0, Worker 0, Worker 0,
              Handler 1, Handler 1, Worker 0, Handler 0]
             (init [\<lparr>Message = ''first'', SessionID = Some ''S'', ProjectName = None\<rparr>,
                    \<lparr>Message = ''second'', SessionID = Some ''S'', ProjectName = None\<rparr>])
          = Some s \<and>
        map response (messages (queue s)) = [1] \<and> processing (queue s) = False \<and>
        workers s = [Exited] \<and> handlers s = [Returned, AtRange] \<and>
        closed (channels s ! 1) = False \<and>
        (\<forall>t. step \<lparr>session = ''S'', projectDirectory = ''/home/u/.claude'', disk = [],
                     jsonUnmarshal = (\<lambda>text. None),
                     httpUpstream = (\<lambda>cx req sessionId projectDir. Response 200 [] EOF)\<rparr>
                  t s = None))"
proof -
  let ?rt = "\<lparr>session = ''S'', projectDirectory = ''/home/u/.claude'', disk = [],
                jsonUnmarshal = (\<lambda>text. None),
                httpUpstream = (\<lambda>cx req sessionId projectDir. Response 200 [] EOF)\<rparr>"
  let ?r0 = "\<lparr>Message = ''first'', SessionID = Some ''S'', ProjectName = None\<rparr>"
  let ?r1 = "\<lparr>Message = ''second'', SessionID = Some ''S'', ProjectName = None\<rparr>"
  let ?s = "\<lparr>queue = \<lparr>messages = [\<lparr>message = ?r1, response = 1, ctx = Background\<rparr>],
                       processing = False\<rparr>,
             handlers = [Returned, AtRange], workers = [Exited],
             channels = [\<lparr>buffer = [], closed = True\<rparr>, \<lparr>buffer = [], closed = False\<rparr>],
             requests = [?r0, ?r1]\<rparr>"
  have d: "dequeue \<lparr>messages = [], processing = True\<rparr>
             = (None, \<lparr>messages = [], processing = True\<rparr>)"
    by (simp add: dequeue_def)
  have r: "run ?rt [Handler 0, Handler 0, Handler 0, Handler 0, Worker 0, Worker 0, Worker 0,
                    Handler 1, Handler 1, Worker 0, Handler 0] (init [?r0, ?r1]) = Some ?s"
    by (simp add: queue_eval executeClaudeCLI_def readStream_no_line)
  have stuck: "step ?rt t ?s = None" for t
  proof (cases t)
    case (Handler i)
    consider "i = 0" | "i = 1" | "2 \<le> i" by linarith
    then show ?thesis
    proof cases
      case 1
      with Handler show ?thesis by (simp add: handlerStep_def)
    next
      case 2
      with Handler show ?thesis by (simp add: handlerStep_def)
    next
      case 3
      then have "length [Returned, AtRange] \<le> i" by simp
      with Handler show ?thesis by (simp add: handlerStep_def)
    qed
  next
    case (Worker j)
    consider "j = 0" | "1 \<le> j" by linarith
    then show ?thesis
    proof cases
      case 1
      with Worker show ?thesis by (simp add: workerStep_def)
    next
      case 2
      then have "length [Exited] \<le> j" by simp
      with Worker show ?thesis by (simp add: workerStep_def)
    qed
  qed
  have "run ?rt [Handler 0, Handler 0, Handler 0, Handler 0, Worker 0, Worker 0, Worker 0,
                 Handler 1, Handler 1, Worker 0, Handler 0] (init [?r0, ?r1]) = Some ?s \<and>
        map response (messages (queue ?s)) = [1] \<and> processing (queue ?s) = False \<and>
        workers ?s = [Exited] \<and> handlers ?s = [Returned, AtRange] \<and>
        closed (channels ?s ! 1) = False \<and> (\<forall>t. step ?rt t ?s = None)"
    using r stuck by simp
  then have "\<exists>s. run ?rt [Handler 0, Handler 0, Handler 0, Handler 0, Worker 0, Worker 0, Worker 0,
                 Handler 1, Handler 1, Worker 0, Handler 0] (init [?r0, ?r1]) = Some s \<and>
        map response (messages (queue s)) = [1] \<and> processing (queue s) = False \<and>
        workers s = [Exited] \<and> handlers s = [Returned, AtRange] \<and>
        closed (channels s ! 1) = False \<and> (\<forall>t. step ?rt t s = None)"
    by (rule exI)
  with d show ?thesis by (rule conjI)
qed

lemma list_all_update: "list_all P xs \<Longrightarrow> P v \<Longrightarrow> list_all P (xs[i := v])"
  using set_update_subset_insert [of xs i v] by (auto simp: list_all_iff)

lemma backgroundOnly_init: "backgroundOnly (init reqs)"
  by (simp add: backgroundOnly_def init_def)

lemma backgroundOnly_handlerStep:
  assumes "backgroundOnly s" and "handlerStep i s = Some s'"
  shows "backgroundOnly s'"
proof (cases "handlers s ! i")
  case AtEnqueue
  with assms show ?thesis
    by (auto simp: handlerStep_def backgroundOnly_def enqueue_def split: if_splits)
next
  case AtIsProcessing
  with assms show ?thesis
    by (auto simp: handlerStep_def backgroundOnly_def split: if_splits)
next
  case AtSetProcessing
  with assms show ?thesis
    by (auto simp: handlerStep_def backgroundOnly_def setProcessing_def split: if_splits)
next
  case AtGo
  with assms show ?thesis
    by (auto simp: handlerStep_def backgroundOnly_def split: if_splits)
next
  case AtRange
  with assms show ?thesis
    by (auto simp: handlerStep_def backgroundOnly_def split: if_splits)
next
  case Returned
  with assms show ?thesis by (auto simp: handlerStep_def split: if_splits)
qed

lemma backgroundOnly_workerStep:
  assumes "backgroundOnly s" and "workerStep rt j s = Some s'"
  shows "backgroundOnly s'"
proof (cases "workers s ! j")
  case AtDequeue
  show ?thesis
  proof (cases "messages (queue s)")
    case Nil
    with AtDequeue assms show ?thesis
      by (auto simp: workerStep_def backgroundOnly_def dequeue_def list_all_update
               split: if_splits)
  next
    case (Cons m ms)
    with AtDequeue assms show ?thesis
      by (auto simp: workerStep_def backgroundOnly_def dequeue_def list_all_update
               split: if_splits)
  qed
next
  case (AtExecute m)
  with assms show ?thesis
    by (auto simp: workerStep_def backgroundOnly_def Let_def list_all_update split: if_splits)
next
  case AtSetIdle
  with assms show ?thesis
    by (auto simp: workerStep_def backgroundOnly_def setProcessing_def list_all_update
             split: if_splits)
next
  case Exited
  with assms show ?thesis by (auto simp: workerStep_def split: if_splits)
qed

lemma backgroundOnly_step: "backgroundOnly s \<Longrightarrow> step rt t s = Some s' \<Longrightarrow> backgroundOnly s'"
  by (cases t) (auto intro: backgroundOnly_handlerStep backgroundOnly_workerStep)

lemma backgroundOnly_run: "backgroundOnly s \<Longrightarrow> run rt ts s = Some s' \<Longrightarrow> backgroundOnly s'"
proof (induction ts arbitrary: s)
  case Nil
  then show ?case by simp
next
  case (Cons t ts)
  from Cons.prems(2) obtain s1 where a: "step rt t s = Some s1" and b: "run rt ts s1 = Some s'"
    by (auto split: option.splits)
  from backgroundOnly_step [OF Cons.prems(1) a] have "backgroundOnly s1" .
  then show ?case using b by (rule Cons.IH)
qed

text \<open>
  Claim C4, as stated, fails: the chat handler of request 0 enqueues its turn with the
  background context, not with the context of its request. When the client of request
  0 has disconnected, the request's context is done and the turn's context is not.
\<close>

theorem chat_turn_context_counterexample:
  "map_option (\<lambda>s. map ctx (messages (queue s)))
     (step \<lparr>session = ''S'', projectDirectory = ''/home/u/.claude'', disk = [],
            jsonUnmarshal = (\<lambda>text. None),
            httpUpstream = (\<lambda>cx req sessionId projectDir. Response 200 [] EOF)\<rparr>
        (Handler 0)
        (init [\<lparr>Message = ''hi'', SessionID = Some ''S'', ProjectName = None\<rparr>]))
   = Some [Background] \<and>
   Done [0] (RequestContext 0) \<and> \<not> Done [0] Background"
  by (simp add: queue_eval)

text \<open>
  Claim C4, amended. Every enqueued turn carries the background context
  (\<open>context.Background()\<close>), which is never cancelled: whatever the handlers and workers
  of a session do, in every state they reach every queued turn and every turn a worker
  is executing (whose context is the one passed to the upstream HTTP call) carries the
  background context, and no set of disconnected clients makes that context done.
\<close>

theorem chat_turns_carry_background_context:
  assumes "run rt sched (init reqs) = Some s"
  shows "(\<forall>m \<in> set (messages (queue s)). ctx m = Background \<and> (\<forall>d. \<not> Done d (ctx m))) \<and>
         (\<forall>m. AtExecute m \<in> set (workers s) \<longrightarrow> ctx m = Background \<and> (\<forall>d. \<not> Done d (ctx m)))"
proof -
  from backgroundOnly_run [OF backgroundOnly_init assms] have b: "backgroundOnly s" .
  then have 1: "\<forall>m \<in> set (messages (queue s)). ctx m = Background"
    by (simp add: backgroundOnly_def list_all_iff)
  have 2: "ctx m = Background" if "AtExecute m \<in> set (workers s)" for m
    using b that by (auto simp: backgroundOnly_def list_all_iff)
  from 1 2 show ?thesis by simp
qed

theorem chat_turns_carry_background_context_witness:
  "\<exists>s. run \<lparr>session = ''S'', projectDirectory = ''/home/u/.claude'', disk = [],
              jsonUnmarshal = (\<lambda>text. None),
              httpUpstream = (\<lambda>cx req sessionId projectDir. Response 200 [] EOF)\<rparr>
           [Handler 0, Handler 0, Handler 0, Handler 0, Handler 1, Worker 0]
           (init [\<lparr>Message = ''first'', SessionID = Some ''S'', ProjectName = None\<rparr>,
                  \<lparr>Message = ''second'', SessionID = Some ''S'', ProjectName = None\<rparr>])
        = Some s \<and>
      map ctx (messages (queue s)) = [Background] \<and>
      (\<exists>m. workers s = [AtExecute m] \<and> ctx m = Background \<and> \<not> Done [0, 1] (ctx m))"
proof -
  let ?rt = "\<lparr>session = ''S'', projectDirectory = ''/home/u/.claude'', disk = [],
              jsonUnmarshal = (\<lambda>text. None),
              httpUpstream = (\<lambda>cx req sessionId projectDir. Response 200 [] EOF)\<rparr>"
  let ?r0 = "\<lparr>Message = ''first'', SessionID = Some ''S'', ProjectName = None\<rparr>"
  let ?r1 = "\<lparr>Message = ''second'', SessionID = Some ''S'', ProjectName = None\<rparr>"
  let ?m0 = "\<lparr>message = ?r0, response = 0, ctx = Background\<rparr>"
  let ?m1 = "\<lparr>message = ?r1, response = 1, ctx = Background\<rparr>"
  let ?s = "\<lparr>queue = \<lparr>messages = [?m1], processing = True\<rparr>,
             handlers = [AtRange, AtIsProcessing], workers = [AtExecute ?m0],
             channels = [\<lparr>buffer = [], closed = False\<rparr>, \<lparr>buffer = [], closed = False\<rparr>],
             requests = [?r0, ?r1]\<rparr>"
  have r: "run ?rt [Handler 0, Handler 0, Handler 0, Handler 0, Handler 1, Worker 0]
             (init [?r0, ?r1]) = Some ?s"
    by (simp add: queue_eval)
  note T = chat_turns_carry_background_context [OF r]
  have e: "AtExecute ?m0 \<in> set (workers ?s)" by simp
  from T have "\<forall>m. AtExecute m \<in> set (workers ?s) \<longrightarrow>
                 ctx m = Background \<and> (\<forall>d. \<not> Done d (ctx m))"
    by (rule conjunct2)
  then have "AtExecute ?m0 \<in> set (workers ?s) \<longrightarrow>
               ctx ?m0 = Background \<and> (\<forall>d. \<not> Done d (ctx ?m0))"
    by (rule spec)
  with e have c: "ctx ?m0 = Background \<and> (\<forall>d. \<not> Done d (ctx ?m0))" by (rule rev_mp)
  from c have c1: "ctx ?m0 = Background" by (rule conjunct1)
  from c have "\<forall>d. \<not> Done d (ctx ?m0)" by (rule conjunct2)
  then have c2: "\<not> Done [0, 1] (ctx ?m0)" by (rule spec)
  show ?thesis
  proof (intro exI conjI)
    show "run ?rt [Handler 0, Handler 0, Handler 0, Handler 0, Handler 1, Worker 0]
            (init [?r0, ?r1]) = Some ?s"
      by (rule r)
    show "map ctx (messages (queue ?s)) = [Background]" by simp
    show "workers ?s = [AtExecute ?m0]" by simp
    show "ctx ?m0 = Background" by (rule c1)
    show "\<not> Done [0, 1] (ctx ?m0)" by (rule c2)
  qed
qed

end
